theory Spec2Isabelle
  imports Complex_Main
begin

section \<open>Python values\<close>

text \<open>
  The catalog is read with \<^verbatim>\<open>json.load\<close> and request bodies with \<^verbatim>\<open>get_json\<close>, so the
  values the code handles are JSON values: \<^verbatim>\<open>None\<close>, booleans, integers, strings, lists
  and dicts with string keys. A dict is an association list in insertion order; a lookup
  takes the first binding of a key. Strings are ASCII byte strings. JSON floats are not
  part of this model of a product's fields; the similarity scores of the retriever, which
  are floats, are kept beside the products (see \<open>semantic_search\<close>).
\<close>

datatype pyval =
    PNone
  | PBool bool
  | PInt int
  | PStr string
  | PList "pyval list"
  | PDict "(string \<times> pyval) list"

type_synonym pydict = "(string \<times> pyval) list"

text \<open>The exceptions of the modelled code, as values.\<close>

datatype error =
    AttributeError
  | TypeError
  | KeyError
  | IndexError
  | ValueError
  | JSONDecodeError
  | ProviderError

text \<open>Truthiness (\<^verbatim>\<open>bool(v)\<close>, \<^verbatim>\<open>if v\<close>, \<^verbatim>\<open>not v\<close>) and \<^verbatim>\<open>a or b\<close>.\<close>

fun py_truthy :: "pyval \<Rightarrow> bool" where
  "py_truthy PNone = False"
| "py_truthy (PBool b) = b"
| "py_truthy (PInt n) = (n \<noteq> 0)"
| "py_truthy (PStr s) = (s \<noteq> [])"
| "py_truthy (PList xs) = (xs \<noteq> [])"
| "py_truthy (PDict kvs) = (kvs \<noteq> [])"

definition py_or :: "pyval \<Rightarrow> pyval \<Rightarrow> pyval" where
  "py_or a b = (if py_truthy a then a else b)"

text \<open>\<^verbatim>\<open>d.get(k)\<close> and \<^verbatim>\<open>d.get(k, default)\<close> on a dict, and \<^verbatim>\<open>k in d\<close>.\<close>

definition dict_get_default :: "pydict \<Rightarrow> string \<Rightarrow> pyval \<Rightarrow> pyval" where
  "dict_get_default d k dflt = (case map_of d k of None \<Rightarrow> dflt | Some v \<Rightarrow> v)"

definition dict_get :: "pydict \<Rightarrow> string \<Rightarrow> pyval" where
  "dict_get d k = dict_get_default d k PNone"

definition dict_has :: "pydict \<Rightarrow> string \<Rightarrow> bool" where
  "dict_has d k = (map_of d k \<noteq> None)"

text \<open>\<^verbatim>\<open>v.get(k)\<close> on any value: only a dict has the method.\<close>

fun py_get :: "pyval \<Rightarrow> string \<Rightarrow> error + pyval" where
  "py_get (PDict d) k = Inr (dict_get d k)"
| "py_get _ k = Inl AttributeError"

subsection \<open>Strings\<close>

text \<open>
  \<^verbatim>\<open>str.isspace\<close> on ASCII: tab, line feed, vertical tab, form feed, carriage return,
  the separators 0x1c to 0x1f, and the space.
\<close>

definition is_space :: "char \<Rightarrow> bool" where
  "is_space c = (let n = (of_char c :: nat) in (9 \<le> n \<and> n \<le> 13) \<or> (28 \<le> n \<and> n \<le> 32))"

definition strip :: "string \<Rightarrow> string" where
  "strip s = rev (dropWhile is_space (rev (dropWhile is_space s)))"

definition lower_char :: "char \<Rightarrow> char" where
  "lower_char c = (let n = (of_char c :: nat) in if 65 \<le> n \<and> n \<le> 90 then char_of (n + 32) else c)"

definition lower :: "string \<Rightarrow> string" where
  "lower s = map lower_char s"

definition startswith :: "string \<Rightarrow> string \<Rightarrow> bool" where
  "startswith s p = (take (length p) s = p)"

text \<open>\<^verbatim>\<open>k in t\<close> on two strings: \<open>k\<close> occurs in \<open>t\<close> as a contiguous substring.\<close>

fun contains :: "string \<Rightarrow> string \<Rightarrow> bool" where
  "contains [] k = (k = [])"
| "contains (c # cs) k = (startswith (c # cs) k \<or> contains cs k)"

text \<open>\<^verbatim>\<open>sep.join(xs)\<close>.\<close>

fun join :: "string \<Rightarrow> string list \<Rightarrow> string" where
  "join sep [] = []"
| "join sep [x] = x"
| "join sep (x # y # ys) = x @ sep @ join sep (y # ys)"

subsection \<open>\<^verbatim>\<open>str(v)\<close> and \<^verbatim>\<open>repr(v)\<close>\<close>

definition digit_char :: "nat \<Rightarrow> char" where
  "digit_char d = char_of (48 + d)"

fun nat_digits :: "nat \<Rightarrow> string" where
  "nat_digits n = (if n < 10 then [digit_char n] else nat_digits (n div 10) @ [digit_char (n mod 10)])"

declare nat_digits.simps [simp del]

definition int_str :: "int \<Rightarrow> string" where
  "int_str i = (if i < 0 then CHR ''-'' # nat_digits (nat (- i)) else nat_digits (nat i))"

definition hex_char :: "nat \<Rightarrow> char" where
  "hex_char d = (if d < 10 then char_of (48 + d) else char_of (87 + d))"

text \<open>
  \<^verbatim>\<open>repr\<close> of a string: double quotes when the text has a single quote and no double
  quote, single quotes otherwise; the backslash and the chosen quote are escaped, as are
  tab, line feed, carriage return and the other control characters.
\<close>

definition repr_char :: "char \<Rightarrow> char \<Rightarrow> string" where
  "repr_char q c =
     (let n = (of_char c :: nat) in
      if c = CHR 0x5C then [CHR 0x5C, CHR 0x5C]
      else if c = q then [CHR 0x5C, q]
      else if n = 9 then [CHR 0x5C, CHR ''t'']
      else if n = 10 then [CHR 0x5C, CHR ''n'']
      else if n = 13 then [CHR 0x5C, CHR ''r'']
      else if n < 32 \<or> n = 127 then [CHR 0x5C, CHR ''x'', hex_char (n div 16), hex_char (n mod 16)]
      else [c])"

definition repr_str :: "string \<Rightarrow> string" where
  "repr_str s =
     (let q = (if CHR 0x27 \<in> set s \<and> CHR 0x22 \<notin> set s then CHR 0x22 else CHR 0x27)
      in [q] @ concat (map (repr_char q) s) @ [q])"

fun py_repr :: "pyval \<Rightarrow> string" where
  "py_repr PNone = ''None''"
| "py_repr (PBool b) = (if b then ''True'' else ''False'')"
| "py_repr (PInt n) = int_str n"
| "py_repr (PStr s) = repr_str s"
| "py_repr (PList xs) = ''['' @ join '', '' (map py_repr xs) @ '']''"
| "py_repr (PDict kvs) =
     ''{'' @ join '', '' (map (\<lambda>kv. repr_str (fst kv) @ '': '' @ py_repr (snd kv)) kvs) @ ''}''"

definition py_str :: "pyval \<Rightarrow> string" where
  "py_str v = (case v of PStr s \<Rightarrow> s | _ \<Rightarrow> py_repr v)"

section \<open>The rule engine (rule\_engine.py)\<close>

text \<open>
  \<^verbatim>\<open>_is_absolute_url(url)\<close> calls \<^verbatim>\<open>url.strip()\<close>: a value that is not a string has no
  such method and the call raises AttributeError.
\<close>

definition is_absolute_url :: "pyval \<Rightarrow> error + bool" where
  "is_absolute_url url =
     (case url of
        PStr s \<Rightarrow>
          (let lowered = lower (strip s)
           in Inr (startswith lowered ''http://'' \<or> startswith lowered ''https://''))
      | _ \<Rightarrow> Inl AttributeError)"

definition MANUAL_NOTE :: string where
  "MANUAL_NOTE = ''Please manually verify the validity period of all EPDs''"

text \<open>\<^verbatim>\<open>isinstance(epd_url, str) and not epd_url.strip()\<close>.\<close>

definition is_blank_str :: "pyval \<Rightarrow> bool" where
  "is_blank_str v = (case v of PStr s \<Rightarrow> strip s = [] | _ \<Rightarrow> False)"

definition evaluate_product :: "pydict \<Rightarrow> error + (string \<times> string list \<times> string list)" where
  "evaluate_product product =
     (let epd_url = py_or (dict_get product ''epd_url'') PNone;
          epd_issue_date = py_or (dict_get product ''epd_issue_date'') PNone
      in if \<not> py_truthy epd_url \<or> is_blank_str epd_url
         then Inr (''Red'', [''Missing EPD file link''], [MANUAL_NOTE])
         else
           (case is_absolute_url epd_url of
              Inl e \<Rightarrow> Inl e
            | Inr is_abs \<Rightarrow>
                (let has_issue_date =
                       (py_truthy epd_issue_date \<and> strip (py_str epd_issue_date) \<noteq> [])
                 in if \<not> is_abs \<and> \<not> has_issue_date
                    then Inr (''Yellow'', [''EPD link is relative and issue date is missing''],
                              [MANUAL_NOTE])
                    else if \<not> is_abs
                    then Inr (''Yellow'', [''EPD link is a relative path and may be inaccessible''],
                              [MANUAL_NOTE])
                    else if \<not> has_issue_date
                    then Inr (''Yellow'',
                              [''EPD issue date is missing; validity cannot be verified''],
                              [MANUAL_NOTE])
                    else Inr (''Green'',
                              [''EPD link is accessible; please verify the issue date manually''],
                              [MANUAL_NOTE]))))"


section \<open>The decision table in the words of the specification\<close>

text \<open>
  The specification's reading of the two fields: the URL is missing when the field is
  absent, \<^verbatim>\<open>None\<close>, empty or whitespace-only; a URL is absolute when it starts with
  \<^verbatim>\<open>http://\<close> or \<^verbatim>\<open>https://\<close>, whatever the case of the letters; the issue date is
  there when the field is present and not blank.
\<close>

definition spec_url_missing :: "pydict \<Rightarrow> bool" where
  "spec_url_missing product =
     (case map_of product ''epd_url'' of
        None \<Rightarrow> True
      | Some PNone \<Rightarrow> True
      | Some (PStr s) \<Rightarrow> list_all is_space s
      | Some _ \<Rightarrow> False)"

definition spec_isAbsolute :: "pyval \<Rightarrow> bool" where
  "spec_isAbsolute url =
     (case url of
        PStr s \<Rightarrow> startswith (lower s) ''http://'' \<or> startswith (lower s) ''https://''
      | _ \<Rightarrow> False)"

definition spec_hasIssueDate :: "pydict \<Rightarrow> bool" where
  "spec_hasIssueDate product =
     (case map_of product ''epd_issue_date'' of
        None \<Rightarrow> False
      | Some PNone \<Rightarrow> False
      | Some (PStr s) \<Rightarrow> \<not> list_all is_space s
      | Some _ \<Rightarrow> True)"

text \<open>The four rows of the table: the tier and the reason.\<close>

definition spec_table :: "bool \<Rightarrow> bool \<Rightarrow> string \<times> string" where
  "spec_table isAbsolute hasIssueDate =
     (if \<not> isAbsolute \<and> \<not> hasIssueDate
        then (''Yellow'', ''EPD link is relative and issue date is missing'')
      else if \<not> isAbsolute \<and> hasIssueDate
        then (''Yellow'', ''EPD link is a relative path and may be inaccessible'')
      else if isAbsolute \<and> \<not> hasIssueDate
        then (''Yellow'', ''EPD issue date is missing; validity cannot be verified'')
      else (''Green'', ''EPD link is accessible; please verify the issue date manually''))"

text \<open>What the specification promises of \<open>evaluate_product\<close> at one product.\<close>

definition spec_decision_holds :: "pydict \<Rightarrow> bool" where
  "spec_decision_holds product =
     (case evaluate_product product of
        Inl e \<Rightarrow> False
      | Inr (tier, reasons, advisories) \<Rightarrow>
          List.member advisories MANUAL_NOTE \<and>
          (if spec_url_missing product
           then tier = ''Red'' \<and> List.member reasons ''Missing EPD file link''
           else (tier, reasons) =
                  (let row = spec_table (spec_isAbsolute (dict_get product ''epd_url''))
                                        (spec_hasIssueDate product)
                   in (fst row, [snd row]))))"

text \<open>
  The reading the code has. The URL is missing when the field is absent, falsy
  (\<^verbatim>\<open>None\<close>, the empty string, \<^verbatim>\<open>0\<close>, \<^verbatim>\<open>False\<close>, an empty list or dict) or a
  whitespace-only string; a URL is absolute when, with the whitespace around it stripped,
  it starts with one of the two schemes; the issue date is there when the field is truthy
  and its string form is not blank.
\<close>

definition isinstance_str :: "pyval \<Rightarrow> bool" where
  "isinstance_str v = (case v of PStr s \<Rightarrow> True | _ \<Rightarrow> False)"

definition url_missing :: "pydict \<Rightarrow> bool" where
  "url_missing product =
     (let u = dict_get product ''epd_url'' in \<not> py_truthy u \<or> is_blank_str u)"

definition stripped_isAbsolute :: "pyval \<Rightarrow> bool" where
  "stripped_isAbsolute url =
     (case url of PStr s \<Rightarrow> spec_isAbsolute (PStr (strip s)) | _ \<Rightarrow> False)"

definition hasIssueDate :: "pydict \<Rightarrow> bool" where
  "hasIssueDate product =
     (let d = dict_get product ''epd_issue_date''
      in py_truthy d \<and> \<not> list_all is_space (py_str d))"

definition decision :: "pydict \<Rightarrow> string \<times> string list \<times> string list" where
  "decision product =
     (if url_missing product then (''Red'', [''Missing EPD file link''], [MANUAL_NOTE])
      else (let row = spec_table (stripped_isAbsolute (dict_get product ''epd_url''))
                                 (hasIssueDate product)
            in (fst row, [snd row], [MANUAL_NOTE])))"

text \<open>The URL field holds a string, or a value that is falsy (or the field is absent).\<close>

definition url_is_text_or_falsy :: "pydict \<Rightarrow> bool" where
  "url_is_text_or_falsy product =
     (let u = dict_get product ''epd_url'' in isinstance_str u \<or> \<not> py_truthy u)"

section \<open>Equality and membership of Python values\<close>

text \<open>
  \<^verbatim>\<open>a == b\<close>: a boolean equals the integer 0 or 1 it stands for; a string never equals a
  number; lists are compared element by element; two dicts are equal when they have the
  same keys with equal values, in any order (the keys of a dict are distinct).
\<close>

fun py_eq :: "pyval \<Rightarrow> pyval \<Rightarrow> bool" where
  "py_eq PNone PNone = True"
| "py_eq (PBool a) (PBool b) = (a = b)"
| "py_eq (PBool a) (PInt n) = (n = (if a then 1 else 0))"
| "py_eq (PInt n) (PBool a) = (n = (if a then 1 else 0))"
| "py_eq (PInt m) (PInt n) = (m = n)"
| "py_eq (PStr s) (PStr t) = (s = t)"
| "py_eq (PList xs) (PList ys) = list_all2 py_eq xs ys"
| "py_eq (PDict a) (PDict b) =
     (length a = length b \<and>
      list_all (\<lambda>kv. case map_of b (fst kv) of None \<Rightarrow> False | Some w \<Rightarrow> py_eq (snd kv) w) a)"
| "py_eq _ _ = False"

section \<open>The catalog index (product\_indexer.py)\<close>

text \<open>
  \<^verbatim>\<open>get_product_by_id\<close> walks the product list and compares \<^verbatim>\<open>product['id']\<close> with the
  argument by \<^verbatim>\<open>==\<close>; a product without the key raises KeyError; no match is \<^verbatim>\<open>None\<close>.
\<close>

fun get_product_by_id :: "pydict list \<Rightarrow> pyval \<Rightarrow> error + pydict option" where
  "get_product_by_id [] product_id = Inr None"
| "get_product_by_id (product # rest) product_id =
     (case map_of product ''id'' of
        None \<Rightarrow> Inl KeyError
      | Some v \<Rightarrow> if py_eq v product_id then Inr (Some product)
                  else get_product_by_id rest product_id)"

text \<open>
  The lookup in the words of the specification: identifiers are compared by their string
  form, and the first product that matches is returned.
\<close>

definition spec_getById :: "pydict list \<Rightarrow> pyval \<Rightarrow> pydict option" where
  "spec_getById products product_id =
     find (\<lambda>p. py_str (dict_get p ''id'') = py_str product_id) products"

section \<open>Pagination of the search endpoint (app.py)\<close>

text \<open>
  \<^verbatim>\<open>xs[start:end]\<close> for integer bounds: a negative bound counts from the end, and both
  are clamped to the list.
\<close>

definition slice_bound :: "nat \<Rightarrow> int \<Rightarrow> nat" where
  "slice_bound n i = (if i < 0 then nat (max 0 (int n + i)) else min (nat i) n)"

definition py_slice :: "'a list \<Rightarrow> int \<Rightarrow> int \<Rightarrow> 'a list" where
  "py_slice xs start stop =
     (let a = slice_bound (length xs) start; b = slice_bound (length xs) stop
      in take (b - a) (drop a xs))"

record 'a page_response =
  results :: "'a list"
  count :: nat
  total :: nat
  page :: int
  per_page :: int
  total_pages :: int

text \<open>
  Both branches of \<^verbatim>\<open>search\<close> (with and without a query) clamp \<^verbatim>\<open>page\<close> and
  \<^verbatim>\<open>per_page\<close> and cut the page out of the result list in the same way.
\<close>

definition paginate :: "'a list \<Rightarrow> int \<Rightarrow> int \<Rightarrow> 'a page_response" where
  "paginate all_results page_arg per_page_arg =
     (let pg = max 1 page_arg;
          pp = min 100 (max 10 per_page_arg);
          tot = length all_results;
          tp = (int tot + pp - 1) div pp;
          start_idx = (pg - 1) * pp;
          end_idx = start_idx + pp;
          paginated = py_slice all_results start_idx end_idx
      in \<lparr> results = paginated, count = length paginated, total = tot,
            page = pg, per_page = pp, total_pages = tp \<rparr>)"

section \<open>The semantic retriever (search\_engine.py)\<close>

text \<open>
  \<^verbatim>\<open>for c in v\<close>: a list gives its elements, a string its characters, a dict its keys;
  \<^verbatim>\<open>None\<close>, a boolean and an integer are not iterable.
\<close>

fun py_iter :: "pyval \<Rightarrow> error + pyval list" where
  "py_iter (PList xs) = Inr xs"
| "py_iter (PStr s) = Inr (map (\<lambda>c. PStr [c]) s)"
| "py_iter (PDict d) = Inr (map (\<lambda>kv. PStr (fst kv)) d)"
| "py_iter _ = Inl TypeError"

text \<open>The comprehension \<^verbatim>\<open>[c.get(field) for c in cs]\<close>: the first failing call raises.\<close>

fun get_each :: "pyval list \<Rightarrow> string \<Rightarrow> error + pyval list" where
  "get_each [] field = Inr []"
| "get_each (c # cs) field =
     (case py_get c field of
        Inl e \<Rightarrow> Inl e
      | Inr v \<Rightarrow> (case get_each cs field of Inl e \<Rightarrow> Inl e | Inr vs \<Rightarrow> Inr (v # vs)))"

definition hashable :: "pyval \<Rightarrow> bool" where
  "hashable v = (case v of PList xs \<Rightarrow> False | PDict d \<Rightarrow> False | _ \<Rightarrow> True)"

text \<open>
  \<^verbatim>\<open>x in c\<close>: equality with an element of a list; a substring of a string (the left
  operand must be a string); a key of a dict (the left operand must be hashable); any
  other right operand raises TypeError.
\<close>

fun py_in :: "pyval \<Rightarrow> pyval \<Rightarrow> error + bool" where
  "py_in x (PList ys) = Inr (list_ex (py_eq x) ys)"
| "py_in x (PStr s) = (case x of PStr t \<Rightarrow> Inr (contains s t) | _ \<Rightarrow> Inl TypeError)"
| "py_in x (PDict d) =
     (if hashable x then Inr (case x of PStr k \<Rightarrow> dict_has d k | _ \<Rightarrow> False)
      else Inl TypeError)"
| "py_in x _ = Inl TypeError"

text \<open>\<^verbatim>\<open>any(x in c for x in xs)\<close>: stops at the first hit, raises at the first failure.\<close>

fun any_in :: "pyval list \<Rightarrow> pyval \<Rightarrow> error + bool" where
  "any_in [] c = Inr False"
| "any_in (x # xs) c =
     (case py_in x c of
        Inl e \<Rightarrow> Inl e
      | Inr hit \<Rightarrow> if hit then Inr True else any_in xs c)"

text \<open>
  The five blocks of \<^verbatim>\<open>_passes_filters\<close>, each \<open>Inr False\<close> where the source returns
  \<^verbatim>\<open>False\<close> and \<open>Inr True\<close> where it goes on to the next block.
\<close>

definition category_filter :: "pydict \<Rightarrow> pydict \<Rightarrow> error + bool" where
  "category_filter product filters =
     (if py_truthy (dict_get filters ''categories'')
      then (case py_iter (dict_get_default product ''product_categories'' (PList [])) of
              Inl e \<Rightarrow> Inl e
            | Inr cs \<Rightarrow>
                (case get_each cs ''category_name'' of
                   Inl e \<Rightarrow> Inl e
                 | Inr product_cats \<Rightarrow> any_in product_cats (dict_get filters ''categories'')))
      else Inr True)"

definition manufacturer_filter :: "pydict \<Rightarrow> pydict \<Rightarrow> error + bool" where
  "manufacturer_filter product filters =
     (if py_truthy (dict_get filters ''manufacturers'')
      then py_in (dict_get product ''manufacturer_name'') (dict_get filters ''manufacturers'')
      else Inr True)"

definition certification_filter :: "pydict \<Rightarrow> pydict \<Rightarrow> error + bool" where
  "certification_filter product filters =
     (if py_truthy (dict_get filters ''certifications'')
      then (case py_iter (dict_get_default product ''certifications'' (PList [])) of
              Inl e \<Rightarrow> Inl e
            | Inr cs \<Rightarrow>
                (case get_each cs ''certification'' of
                   Inl e \<Rightarrow> Inl e
                 | Inr product_certs \<Rightarrow> any_in product_certs (dict_get filters ''certifications'')))
      else Inr True)"

definition sustainability_filter :: "pydict \<Rightarrow> pydict \<Rightarrow> bool" where
  "sustainability_filter product filters =
     (if py_truthy (dict_get filters ''has_certifications'')
         \<and> \<not> py_truthy (dict_get product ''certifications'') then False
      else if py_truthy (dict_get filters ''has_carbon_data'')
         \<and> \<not> py_truthy (dict_get product ''net_carbon_emissions'') then False
      else True)"

definition passes_filters :: "pydict \<Rightarrow> pydict \<Rightarrow> error + bool" where
  "passes_filters product filters =
     (case category_filter product filters of
        Inl e \<Rightarrow> Inl e
      | Inr ok1 \<Rightarrow>
          if \<not> ok1 then Inr False
          else (case manufacturer_filter product filters of
                  Inl e \<Rightarrow> Inl e
                | Inr ok2 \<Rightarrow>
                    if \<not> ok2 then Inr False
                    else (case certification_filter product filters of
                            Inl e \<Rightarrow> Inl e
                          | Inr ok3 \<Rightarrow>
                              if \<not> ok3 then Inr False
                              else Inr (sustainability_filter product filters))))"

definition TOP_K_SEMANTIC :: int where
  "TOP_K_SEMANTIC = 30"


text \<open>
  A similarity score is a float: NaN (the cosine of a zero-norm embedding), an infinity,
  or a finite number, which is the real it denotes. \<open>float_lt\<close> is Python's \<^verbatim>\<open><\<close> and
  \<open>float_le\<close> its \<^verbatim>\<open><=\<close>: every comparison with NaN is false.
\<close>

datatype pyfloat = NaN | NegInf | Num real | PosInf

fun float_lt :: "pyfloat \<Rightarrow> pyfloat \<Rightarrow> bool" where
  "float_lt NaN b = False"
| "float_lt a NaN = False"
| "float_lt NegInf NegInf = False"
| "float_lt NegInf b = True"
| "float_lt a NegInf = False"
| "float_lt PosInf b = False"
| "float_lt a PosInf = True"
| "float_lt (Num x) (Num y) = (x < y)"

definition float_le :: "pyfloat \<Rightarrow> pyfloat \<Rightarrow> bool" where
  "float_le a b = (a \<noteq> NaN \<and> b \<noteq> NaN \<and> \<not> float_lt b a)"

text \<open>
  \<^verbatim>\<open>SIMILARITY_THRESHOLD = 0.3\<close>: the double nearest to 0.3, which is
  5404319552844595 / 2^54.
\<close>

definition SIMILARITY_THRESHOLD :: pyfloat where
  "SIMILARITY_THRESHOLD = Num (5404319552844595 / 18014398509481984)"

text \<open>
  \<^verbatim>\<open>similarities.sort(key=lambda x: x[1], reverse=True)\<close>. On keys that compare
  consistently (no NaN) Python guarantees the stable sort by falling score: entries with
  equal scores keep their order. That sort is \<open>sort_by_similarity\<close>, an insertion sort
  that uses \<^verbatim>\<open><\<close> only.
\<close>

fun insert_by_similarity ::
  "nat \<times> pyfloat \<Rightarrow> (nat \<times> pyfloat) list \<Rightarrow> (nat \<times> pyfloat) list" where
  "insert_by_similarity x [] = [x]"
| "insert_by_similarity x (y # ys) =
     (if float_lt (snd x) (snd y) then y # insert_by_similarity x ys else x # y # ys)"

definition sort_by_similarity :: "(nat \<times> pyfloat) list \<Rightarrow> (nat \<times> pyfloat) list" where
  "sort_by_similarity xs = foldr insert_by_similarity xs []"

text \<open>
  With a NaN key the comparisons are not those of an order, and the list that the sort
  leaves depends on the interpreter's merge strategy. So the sort is an input of the
  model, \<open>list_sort\<close>, and \<open>is_list_sort\<close> says what Python guarantees of it.
\<close>

definition no_nan :: "(nat \<times> pyfloat) list \<Rightarrow> bool" where
  "no_nan xs = list_all (\<lambda>x. snd x \<noteq> NaN) xs"

definition is_list_sort :: "((nat \<times> pyfloat) list \<Rightarrow> (nat \<times> pyfloat) list) \<Rightarrow> bool" where
  "is_list_sort list_sort = (\<forall>xs. no_nan xs \<longrightarrow> list_sort xs = sort_by_similarity xs)"

text \<open>\<^verbatim>\<open>if filters: if not self._passes_filters(product, filters): continue\<close>.\<close>

definition filter_check :: "pydict option \<Rightarrow> pydict \<Rightarrow> error + bool" where
  "filter_check filters product =
     (case filters of
        None \<Rightarrow> Inr True
      | Some f \<Rightarrow> if f = [] then Inr True else passes_filters product f)"

text \<open>
  The loop over the sorted similarities. A result is the copy of the product with its
  \<^verbatim>\<open>similarity_score\<close>, kept here as the pair of the product and the score.
  \<^verbatim>\<open>products[idx]\<close> raises IndexError past the end of the product list.
\<close>

fun collect_results ::
  "pydict list \<Rightarrow> pydict option \<Rightarrow> int \<Rightarrow> (nat \<times> pyfloat) list \<Rightarrow> (pydict \<times> pyfloat) list
     \<Rightarrow> error + (pydict \<times> pyfloat) list" where
  "collect_results products filters top_k [] filtered_products = Inr filtered_products"
| "collect_results products filters top_k ((idx, similarity) # rest) filtered_products =
     (if float_lt similarity SIMILARITY_THRESHOLD
        then collect_results products filters top_k rest filtered_products
      else if length products \<le> idx then Inl IndexError
      else (case filter_check filters (products ! idx) of
              Inl e \<Rightarrow> Inl e
            | Inr ok \<Rightarrow>
                if \<not> ok then collect_results products filters top_k rest filtered_products
                else (let filtered' = filtered_products @ [(products ! idx, similarity)]
                      in if top_k \<le> int (length filtered') then Inr filtered'
                         else collect_results products filters top_k rest filtered')))"

text \<open>
  \<^verbatim>\<open>semantic_search(query, top_k, filters)\<close>. \<open>list_sort\<close> is the sort of the similarity
  list (see above); \<open>client\<close> says whether the engine has a provider client;
  \<open>similarities\<close> is the outcome of the embedding call and of the cosine similarity of
  the query with every catalog embedding, in catalog order (\<open>Inl\<close> when the provider call
  raises). \<^verbatim>\<open>top_k or Config.TOP_K_SEMANTIC\<close> takes the default for \<^verbatim>\<open>None\<close> and for 0.
\<close>

definition effective_top_k :: "int option \<Rightarrow> int" where
  "effective_top_k top_k =
     (case top_k of None \<Rightarrow> TOP_K_SEMANTIC | Some n \<Rightarrow> if n = 0 then TOP_K_SEMANTIC else n)"

definition semantic_search ::
  "((nat \<times> pyfloat) list \<Rightarrow> (nat \<times> pyfloat) list) \<Rightarrow> bool \<Rightarrow> error + pyfloat list
     \<Rightarrow> pydict list \<Rightarrow> int option \<Rightarrow> pydict option \<Rightarrow> error + (pydict \<times> pyfloat) list" where
  "semantic_search list_sort client similarities products top_k filters =
     (if \<not> client then Inl ValueError
      else (case similarities of
              Inl e \<Rightarrow> Inl e
            | Inr sims \<Rightarrow>
                collect_results products filters (effective_top_k top_k)
                  (list_sort (zip [0..<length sims] sims)) []))"

text \<open>
  The retrieval in the words of the specification: an entry is eligible when its score is
  not below the threshold and its product passes the filters; the whole similarity list
  is sorted by falling score, the eligible entries are kept in that order, and the first
  \<open>topK\<close> of them are the result.
\<close>

definition eligible :: "pydict list \<Rightarrow> pydict option \<Rightarrow> nat \<times> pyfloat \<Rightarrow> bool" where
  "eligible products filters x =
     (\<not> float_lt (snd x) SIMILARITY_THRESHOLD \<and> fst x < length products
      \<and> filter_check filters (products ! fst x) = Inr True)"

definition spec_search ::
  "pydict list \<Rightarrow> pydict option \<Rightarrow> nat \<Rightarrow> pyfloat list \<Rightarrow> (pydict \<times> pyfloat) list" where
  "spec_search products filters topK sims =
     map (\<lambda>x. (products ! fst x, snd x))
       (take topK (filter (eligible products filters)
                     (sort_by_similarity (zip [0..<length sims] sims))))"

text \<open>The result is sorted by falling score: each score is \<^verbatim>\<open>>=\<close> every later one.\<close>

definition sorted_by_score :: "('a \<times> pyfloat) list \<Rightarrow> bool" where
  "sorted_by_score r = sorted_wrt (\<lambda>a b. float_le (snd b) (snd a)) r"

text \<open>
  A filter set \<open>F'\<close> adds filters to \<open>F\<close>: every filter that is active in \<open>F\<close> has the
  same value in \<open>F'\<close>.
\<close>

definition filter_keys :: "string list" where
  "filter_keys = [''categories'', ''manufacturers'', ''certifications'',
                  ''has_certifications'', ''has_carbon_data'']"

definition filter_value :: "pydict option \<Rightarrow> string \<Rightarrow> pyval" where
  "filter_value filters k = (case filters of None \<Rightarrow> PNone | Some f \<Rightarrow> dict_get f k)"

definition filters_extend :: "pydict option \<Rightarrow> pydict option \<Rightarrow> bool" where
  "filters_extend F' F =
     list_all (\<lambda>k. py_truthy (filter_value F k) \<longrightarrow> filter_value F' k = filter_value F k)
       filter_keys"

section \<open>The rank refiner (search\_engine.py)\<close>

text \<open>\<^verbatim>\<open>s.split(sep)\<close> for a separator that is not empty.\<close>

fun split_from :: "string \<Rightarrow> string \<Rightarrow> string \<Rightarrow> string list" where
  "split_from sep part [] = [rev part]"
| "split_from sep part (c # cs) =
     (if sep \<noteq> [] \<and> startswith (c # cs) sep
      then rev part # split_from sep [] (drop (length sep - 1) cs)
      else split_from sep (c # part) cs)"

definition split :: "string \<Rightarrow> string \<Rightarrow> string list" where
  "split s sep = split_from sep [] s"















section \<open>The EPD screener (epd\_api.py)\<close>

definition endswith :: "string \<Rightarrow> string \<Rightarrow> bool" where
  "endswith s p = (length p \<le> length s \<and> drop (length s - length p) s = p)"

text \<open>\<^verbatim>\<open>_is_http_url\<close> and \<^verbatim>\<open>_is_image_url\<close>: false on a value that is not a string.\<close>

definition is_http_url :: "pyval \<Rightarrow> bool" where
  "is_http_url s =
     (case s of
        PStr t \<Rightarrow> list_ex (startswith (lower t)) [''http://'', ''https://'']
      | _ \<Rightarrow> False)"

definition is_image_url :: "pyval \<Rightarrow> bool" where
  "is_image_url s =
     (case s of
        PStr t \<Rightarrow> list_ex (endswith (lower t))
                   [''.png'', ''.jpg'', ''.jpeg'', ''.webp'', ''.gif'', ''.bmp'', ''.svg'']
      | _ \<Rightarrow> False)"

text \<open>
  \<^verbatim>\<open>_extract_first_image_url\<close>. \<open>push\<close> and \<open>extract_from_array\<close> give the strings that the
  inner functions of the source append to \<^verbatim>\<open>candidates\<close>.
\<close>

definition push :: "pyval \<Rightarrow> string list" where
  "push val = (case val of PStr s \<Rightarrow> if strip s \<noteq> [] then [strip s] else [] | _ \<Rightarrow> [])"

definition extract_from_array :: "pyval \<Rightarrow> string list" where
  "extract_from_array arr =
     (if \<not> py_truthy arr then []
      else (case arr of
              PList xs \<Rightarrow>
                concat (map (\<lambda>x. case x of
                                    PStr s \<Rightarrow> push x
                                  | PDict d \<Rightarrow>
                                      concat (map (\<lambda>k. push (dict_get d k))
                                                [''url'', ''href'', ''src'', ''file'', ''image''])
                                  | _ \<Rightarrow> []) xs)
            | _ \<Rightarrow> []))"

fun pick_image :: "string list \<Rightarrow> string option" where
  "pick_image [] = None"
| "pick_image (url # rest) =
     (if is_http_url (PStr url) \<and> is_image_url (PStr url) then Some url
      else if list_ex (startswith url)
                [''/products/'', ''products/'', ''/media/products/'', ''media/products/'']
              \<and> is_image_url (PStr url)
        then (let rel = (if startswith url ''/'' then url else ''/'' @ url)
              in Some (''/api/proxy-image?path='' @ rel))
      else pick_image rest)"

definition extract_first_image_url :: "pydict \<Rightarrow> error + string option" where
  "extract_first_image_url product =
     (if product = [] then Inr None
      else (case py_get (py_or (dict_get product ''media'') (PDict [])) ''images'' of
              Inl e \<Rightarrow> Inl e
            | Inr media_images \<Rightarrow>
                (case py_get (py_or (dict_get product ''assets'') (PDict [])) ''images'' of
                   Inl e \<Rightarrow> Inl e
                 | Inr assets_images \<Rightarrow>
                     (let candidates =
                            concat (map (\<lambda>key. push (dict_get product key))
                                      [''image'', ''image_url'', ''product_image'', ''main_image'',
                                       ''thumbnail'', ''photo''])
                          @ concat (map (\<lambda>key. extract_from_array (dict_get product key))
                                      [''images'', ''product_images'', ''gallery'', ''photos''])
                          @ extract_from_array media_images
                          @ extract_from_array assets_images
                          @ extract_from_array (dict_get product ''attachments'')
                      in Inr (pick_image candidates)))))"

text \<open>\<^verbatim>\<open>_text_contains_any(text, keywords)\<close>, on a string.\<close>

definition text_contains_any :: "string \<Rightarrow> string list \<Rightarrow> bool" where
  "text_contains_any text keywords = list_ex (contains (lower text)) keywords"

text \<open>
  \<^verbatim>\<open>for c in certs: ... c.get(...)\<close>: every loop over certification or category records
  starts by calling \<^verbatim>\<open>get\<close> on the element, which raises on a value that is not a dict.
\<close>

fun as_dicts :: "pyval list \<Rightarrow> error + pydict list" where
  "as_dicts [] = Inr []"
| "as_dicts (c # cs) =
     (case c of
        PDict d \<Rightarrow> (case as_dicts cs of Inl e \<Rightarrow> Inl e | Inr ds \<Rightarrow> Inr (d # ds))
      | _ \<Rightarrow> Inl AttributeError)"

definition iter_dicts :: "pyval \<Rightarrow> error + pydict list" where
  "iter_dicts v = (case py_iter v of Inl e \<Rightarrow> Inl e | Inr xs \<Rightarrow> as_dicts xs)"

definition general_keywords :: "string list" where
  "general_keywords =
     [''greentag'', ''green tag'', ''geca'', ''greenguard'', ''bifma'', ''afrdi'',
      ''cradle to cradle'', ''c2c'', ''declare'', ''hpd'', ''health product declaration'',
      ''fsc'', ''pefc'', ''responsible wood'', ''responsible steel'', ''oeko-tex'',
      ''scs indoor advantage'', ''certificate'', ''certified'', ''certification'',
      ''ecolabel'', ''green rate'', ''health rate'', ''lca rate'']"

definition epd_keywords :: "string list" where
  "epd_keywords =
     [''epd'', ''environmental product declaration'', ''iso 14025'', ''en 15804'', ''ibu'',
      ''epd australasia'', ''epd international'', ''environdec'']"

definition detect_cert_state :: "pydict \<Rightarrow> error + (bool \<times> bool)" where
  "detect_cert_state product =
     (if product = [] then Inr (False, False)
      else
        (let has_flag = py_truthy (dict_get product ''has_certifications'');
             certs = py_or (dict_get product ''certifications'') (PList []);
             has_array = py_truthy certs;
             has_url = list_ex (\<lambda>f. py_truthy (dict_get product f))
                         [''certificate_url'', ''certification_url'', ''green_tag_url'',
                          ''greentag_url'', ''hpd_url''];
             combined_text =
               join '' '' (map (\<lambda>f. py_str (py_or (dict_get product f) (PStr [])))
                             [''product_name'', ''product_description'', ''long_description'',
                              ''description'', ''title'', ''certifications_text'', ''notes''])
         in (case iter_dicts certs of
               Inl e \<Rightarrow> Inl e
             | Inr cs \<Rightarrow>
                 (let cert_names =
                        map (\<lambda>c. py_str (py_or (py_or (dict_get c ''certification'')
                                                         (dict_get c ''name'')) (PStr []))) cs;
                      names_text = join '' '' cert_names;
                      has_general_by_text =
                        (text_contains_any combined_text general_keywords
                         \<or> text_contains_any names_text general_keywords);
                      has_epd_by_text =
                        (text_contains_any combined_text epd_keywords
                         \<or> text_contains_any names_text epd_keywords);
                      has_any = (has_flag \<or> has_array \<or> has_url \<or> has_general_by_text);
                      epd_url = dict_get product ''epd_url'';
                      has_epd = (py_truthy epd_url \<or> has_epd_by_text)
                  in Inr (has_any, has_epd)))))"

text \<open>
  \<^verbatim>\<open>_find_product_by_id\<close>: the first product of which one of the four id fields is present
  and has the string form of the identifier. \<open>indexer\<close> is \<open>None\<close> when no index is
  loaded.
\<close>

definition find_product_by_id :: "pydict list option \<Rightarrow> pyval \<Rightarrow> pydict option" where
  "find_product_by_id indexer product_id =
     (case indexer of
        None \<Rightarrow> None
      | Some products \<Rightarrow>
          if products = [] then None
          else (let target = py_str product_id
                in find (\<lambda>p. list_ex (\<lambda>k. dict_has p k \<and> py_str (dict_get p k) = target)
                                      [''id'', ''product_id'', ''sku'', ''code'']) products))"

text \<open>
  The stored rows. The timestamps are left out, and the \<^verbatim>\<open>reasons\<close> and \<^verbatim>\<open>advisories\<close>
  columns hold the lists of which the source stores the JSON text.
\<close>

record scan =
  scan_id :: nat
  source :: string
  input_count :: nat
  high_risk_count :: nat
  medium_risk_count :: nat
  low_risk_count :: nat

record scan_result =
  result_scan_id :: nat
  input_product_id :: string
  product_name :: pyval
  manufacturer_name :: pyval
  epd_url :: pyval
  epd_issue_date :: pyval
  risk_level :: string
  reasons :: "string list"
  advisories :: "string list"

record database =
  scans :: "scan list"
  scan_results :: "scan_result list"

text \<open>One entry of \<^verbatim>\<open>results_payload\<close>, and the response.\<close>

record payload_entry =
  entry_input_product_id :: string
  entry_product_name :: pyval
  entry_manufacturer_name :: pyval
  entry_epd_url :: pyval
  entry_epd_issue_date :: pyval
  entry_risk_level :: string
  entry_has_epd :: bool
  entry_has_certifications :: bool
  entry_has_epd_certificate :: bool
  entry_certifications :: "string list"
  entry_certificate_urls :: "string list"
  entry_categories :: "string list"
  entry_thumbnail_url :: "string option"
  entry_reasons :: "string list"
  entry_advisories :: "string list"

record scan_summary =
  summary_scan_id :: nat
  counts_high :: nat
  counts_medium :: nat
  counts_low :: nat
  counts_total :: nat

datatype scan_response =
    BadRequest string
  | ScanCreated scan_summary "payload_entry list"

text \<open>
  The request: a multipart upload, with the outcome of \<^verbatim>\<open>_normalize_ids_from_csv\<close> on the
  file when the \<^verbatim>\<open>file\<close> field is there, or any other body, with what
  \<^verbatim>\<open>get_json(silent=True)\<close> gives (\<^verbatim>\<open>None\<close> when the body is not JSON).
\<close>

datatype scan_request =
    Multipart "(error + string list) option"
  | JsonBody pyval

text \<open>\<^verbatim>\<open>v.get(k, default)\<close> on any value.\<close>

fun py_get_default :: "pyval \<Rightarrow> string \<Rightarrow> pyval \<Rightarrow> error + pyval" where
  "py_get_default (PDict d) k dflt = Inr (dict_get_default d k dflt)"
| "py_get_default _ k dflt = Inl AttributeError"

text \<open>\<^verbatim>\<open>str(v).strip()\<close> of the values that are truthy and not blank.\<close>

definition stripped_text :: "pyval \<Rightarrow> string list" where
  "stripped_text v = (if py_truthy v \<and> strip (py_str v) \<noteq> [] then [strip (py_str v)] else [])"

text \<open>
  The identifiers of the request before the cut to 5000: the list the CSV reader returns,
  or the stripped string forms of the entries of \<^verbatim>\<open>product_ids\<close> that are not blank. The
  inner \<open>Inl\<close> is a 400 response.
\<close>

definition submitted_ids :: "scan_request \<Rightarrow> error + (string + string list)" where
  "submitted_ids request =
     (case request of
        Multipart file \<Rightarrow>
          (case file of
             None \<Rightarrow> Inr (Inl ''Missing file field'')
           | Some parsed \<Rightarrow>
               (case parsed of
                  Inl e \<Rightarrow> Inr (Inl ''CSV parse failed'')
                | Inr ids \<Rightarrow> Inr (Inr ids)))
      | JsonBody body \<Rightarrow>
          (case py_get_default (py_or body (PDict [])) ''product_ids'' (PList []) of
             Inl e \<Rightarrow> Inl e
           | Inr given \<Rightarrow>
               (case py_iter given of
                  Inl e \<Rightarrow> Inl e
                | Inr xs \<Rightarrow>
                    Inr (Inr (map (\<lambda>x. strip (py_str x))
                                (filter (\<lambda>x. strip (py_str x) \<noteq> []) xs))))))"

definition MAX_IDS :: nat where
  "MAX_IDS = 5000"

text \<open>
  The identifiers that are scanned: the first 5000. Only the JSON branch answers 400 when
  none is left.
\<close>

definition read_product_ids :: "scan_request \<Rightarrow> error + (string + string list)" where
  "read_product_ids request =
     (case submitted_ids request of
        Inl e \<Rightarrow> Inl e
      | Inr (Inl msg) \<Rightarrow> Inr (Inl msg)
      | Inr (Inr ids) \<Rightarrow>
          (let product_ids = take MAX_IDS ids
           in case request of
                JsonBody body \<Rightarrow>
                  if product_ids = [] then Inr (Inl ''Missing product IDs (CSV or JSON: product_ids)'')
                  else Inr (Inr product_ids)
              | Multipart file \<Rightarrow> Inr (Inr product_ids)))"

text \<open>The three certificate buckets, with the counter of the bucket.\<close>

definition classify ::
  "bool \<Rightarrow> bool \<Rightarrow> nat \<times> nat \<times> nat \<Rightarrow> string \<times> (nat \<times> nat \<times> nat)" where
  "classify has_epd_cert has_certs counters =
     (case counters of
        (high, med, low) \<Rightarrow>
          if has_epd_cert then (''Green'', (high, med, low + 1))
          else if has_certs then (''Yellow'', (high, med + 1, low))
          else (''Red'', (high + 1, med, low)))"

text \<open>\<^verbatim>\<open>_find_product_by_id(pid) or {}\<close>.\<close>

definition product_or_empty :: "pydict list option \<Rightarrow> string \<Rightarrow> pydict" where
  "product_or_empty indexer pid =
     (case find_product_by_id indexer (PStr pid) of None \<Rightarrow> [] | Some p \<Rightarrow> p)"

text \<open>The body of the loop of \<^verbatim>\<open>create_scan\<close>, for one identifier.\<close>

definition scan_product ::
  "pydict list option \<Rightarrow> nat \<Rightarrow> string \<Rightarrow> nat \<times> nat \<times> nat
     \<Rightarrow> error + (scan_result \<times> payload_entry \<times> (nat \<times> nat \<times> nat))" where
  "scan_product indexer sid pid counters =
     (let product = product_or_empty indexer pid;
          url = dict_get product ''epd_url'';
          issue_date = dict_get product ''epd_issue_date''
      in case detect_cert_state product of
           Inl e \<Rightarrow> Inl e
         | Inr (has_certs, has_epd_cert) \<Rightarrow>
        (case iter_dicts (py_or (dict_get product ''certifications'') (PList [])) of
           Inl e \<Rightarrow> Inl e
         | Inr certs \<Rightarrow>
        (case iter_dicts (py_or (dict_get product ''product_categories'') (PList [])) of
           Inl e \<Rightarrow> Inl e
         | Inr cats \<Rightarrow>
        (case extract_first_image_url product of
           Inl e \<Rightarrow> Inl e
         | Inr thumb \<Rightarrow>
        (case evaluate_product product of
           Inl e \<Rightarrow> Inl e
         | Inr (base_risk, rs, advs) \<Rightarrow>
            (let cert_names =
                   concat (map (\<lambda>c. let nm = py_or (dict_get c ''certification'') (dict_get c ''name'')
                                     in if py_truthy nm then [py_str nm] else []) certs);
                 certificate_urls =
                   concat (map (\<lambda>f. stripped_text (dict_get product f))
                             [''certificate_url'', ''certification_url'', ''green_tag_url'',
                              ''greentag_url'', ''hpd_url'', ''hpd_certificate_url''])
                   @ concat (map (\<lambda>c. concat (map (\<lambda>k. stripped_text (dict_get c k))
                                                  [''url'', ''link'', ''certificate_url''])) certs);
                 cat_names =
                   concat (map (\<lambda>c. let cn = py_or (dict_get c ''category_name'') (dict_get c ''name'')
                                     in if py_truthy cn then [py_str cn] else []) cats);
                 bucket = classify has_epd_cert has_certs counters;
                 risk_for_display = fst bucket;
                 name = py_or (dict_get product ''product_name'') (dict_get product ''name'');
                 manufacturer =
                   py_or (dict_get product ''manufacturer_name'') (dict_get product ''manufacturer'');
                 sr = \<lparr> result_scan_id = sid, input_product_id = pid, product_name = name,
                        manufacturer_name = manufacturer, epd_url = url,
                        epd_issue_date = issue_date, risk_level = risk_for_display,
                        reasons = rs, advisories = advs \<rparr>;
                 entry = \<lparr> entry_input_product_id = pid, entry_product_name = name,
                           entry_manufacturer_name = manufacturer, entry_epd_url = url,
                           entry_epd_issue_date = issue_date,
                           entry_risk_level = risk_for_display,
                           entry_has_epd = (py_truthy url \<and> strip (py_str url) \<noteq> []),
                           entry_has_certifications = has_certs,
                           entry_has_epd_certificate = has_epd_cert,
                           entry_certifications = cert_names,
                           entry_certificate_urls = certificate_urls,
                           entry_categories = cat_names,
                           entry_thumbnail_url = thumb,
                           entry_reasons = rs, entry_advisories = advs \<rparr>
             in Inr (sr, entry, snd bucket)))))))"

text \<open>The loop: the first identifier that raises ends the request.\<close>

fun scan_products ::
  "pydict list option \<Rightarrow> nat \<Rightarrow> string list
     \<Rightarrow> (nat \<times> nat \<times> nat) \<times> scan_result list \<times> payload_entry list
     \<Rightarrow> error + ((nat \<times> nat \<times> nat) \<times> scan_result list \<times> payload_entry list)" where
  "scan_products indexer sid [] state = Inr state"
| "scan_products indexer sid (pid # pids) (counters, rows, payload) =
     (case scan_product indexer sid pid counters of
        Inl e \<Rightarrow> Inl e
      | Inr (sr, entry, counters') \<Rightarrow>
          scan_products indexer sid pids (counters', rows @ [sr], payload @ [entry]))"

text \<open>
  \<^verbatim>\<open>create_scan\<close>: a 400 response leaves the database as it is; an exception (\<open>Inl\<close>)
  ends the request before the commit.
\<close>

definition create_scan ::
  "database \<Rightarrow> pydict list option \<Rightarrow> scan_request \<Rightarrow> error + (database \<times> scan_response)" where
  "create_scan db indexer request =
     (case read_product_ids request of
        Inl e \<Rightarrow> Inl e
      | Inr (Inl msg) \<Rightarrow> Inr (db, BadRequest msg)
      | Inr (Inr product_ids) \<Rightarrow>
          (let sid = Suc (length (scans db))
           in case scan_products indexer sid product_ids ((0, 0, 0), [], []) of
                Inl e \<Rightarrow> Inl e
              | Inr ((high, med, low), rows, payload) \<Rightarrow>
                  Inr (\<lparr> scans = scans db @
                                  [\<lparr> scan_id = sid, source = ''local_index'',
                                     input_count = length product_ids,
                                     high_risk_count = high, medium_risk_count = med,
                                     low_risk_count = low \<rparr>],
                         scan_results = scan_results db @ rows \<rparr>,
                       ScanCreated \<lparr> summary_scan_id = sid, counts_high = high,
                                     counts_medium = med, counts_low = low,
                                     counts_total = length product_ids \<rparr> payload)))"

text \<open>The tier of the certificate heuristic, in the words of the specification.\<close>

definition certificate_tier :: "bool \<Rightarrow> bool \<Rightarrow> string" where
  "certificate_tier has_any has_epd =
     (if has_epd then ''Green'' else if has_any then ''Yellow'' else ''Red'')"

text \<open>The counter that a tier raises.\<close>

definition bump :: "string \<Rightarrow> nat \<times> nat \<times> nat \<Rightarrow> nat \<times> nat \<times> nat" where
  "bump tier counters =
     (case counters of
        (high, med, low) \<Rightarrow>
          if tier = ''Green'' then (high, med, low + 1)
          else if tier = ''Yellow'' then (high, med + 1, low)
          else (high + 1, med, low))"

text \<open>The row and the entry of an identifier that matches no product.\<close>

definition unknown_row :: "nat \<Rightarrow> string \<Rightarrow> scan_result" where
  "unknown_row sid pid =
     \<lparr> result_scan_id = sid, input_product_id = pid, product_name = PNone,
       manufacturer_name = PNone, epd_url = PNone, epd_issue_date = PNone,
       risk_level = ''Red'', reasons = [''Missing EPD file link''],
       advisories = [MANUAL_NOTE] \<rparr>"

definition unknown_entry :: "string \<Rightarrow> payload_entry" where
  "unknown_entry pid =
     \<lparr> entry_input_product_id = pid, entry_product_name = PNone,
       entry_manufacturer_name = PNone, entry_epd_url = PNone,
       entry_epd_issue_date = PNone, entry_risk_level = ''Red'',
       entry_has_epd = False, entry_has_certifications = False,
       entry_has_epd_certificate = False, entry_certifications = [],
       entry_certificate_urls = [], entry_categories = [],
       entry_thumbnail_url = None,
       entry_reasons = [''Missing EPD file link''], entry_advisories = [MANUAL_NOTE] \<rparr>"

definition unknown_id :: "pydict list option \<Rightarrow> string \<Rightarrow> bool" where
  "unknown_id indexer pid = (find_product_by_id indexer (PStr pid) = None)"

text \<open>
  A stored row follows the certificate heuristic: its tier is the one of the certificate
  state of the product, and its reasons and advisories are those of \<open>evaluate_product\<close>,
  whatever tier \<open>evaluate_product\<close> gives.
\<close>

definition heuristic_row :: "pydict list option \<Rightarrow> string \<Rightarrow> scan_result \<Rightarrow> bool" where
  "heuristic_row indexer pid sr =
     (case detect_cert_state (product_or_empty indexer pid) of
        Inl e \<Rightarrow> False
      | Inr (has_any, has_epd) \<Rightarrow>
          (case evaluate_product (product_or_empty indexer pid) of
             Inl e \<Rightarrow> False
           | Inr (tier, rs, advs) \<Rightarrow>
               input_product_id sr = pid
               \<and> risk_level sr = certificate_tier has_any has_epd
               \<and> reasons sr = rs \<and> advisories sr = advs))"

section \<open>Properties of the rule engine\<close>

lemma all_dropWhile:
  "(\<forall>x\<in>set (dropWhile P s). P x) \<longleftrightarrow> (\<forall>x\<in>set s. P x)"
proof
  assume a: "\<forall>x\<in>set (dropWhile P s). P x"
  have "set s = set (takeWhile P s) \<union> set (dropWhile P s)"
    by (metis set_append takeWhile_dropWhile_id)
  then show "\<forall>x\<in>set s. P x"
    using a by (auto dest: set_takeWhileD)
next
  assume "\<forall>x\<in>set s. P x"
  then show "\<forall>x\<in>set (dropWhile P s). P x"
    by (auto dest: set_dropWhileD)
qed

lemma strip_empty_iff: "strip s = [] \<longleftrightarrow> list_all is_space s"
  by (simp add: strip_def dropWhile_eq_Nil_conv list_all_iff all_dropWhile)

lemma py_or_None: "py_or v PNone = (if py_truthy v then v else PNone)"
  by (simp add: py_or_def)

text \<open>
  C1, as the specification states it, fails: \<^verbatim>\<open>_is_absolute_url\<close> strips the URL before
  it looks at the scheme, so a URL with a leading space that the specification's test
  calls relative is absolute for the code. With an issue date the code answers Green,
  where the table of the specification has Yellow and the relative-path reason.
\<close>

theorem spec_decision_leading_space_counterexample:
  "\<not> spec_decision_holds
       [(''epd_url'', PStr '' https://example.org/a.pdf''),
        (''epd_issue_date'', PStr ''2024-01-01'')]"
  by code_simp

text \<open>
  C1, amended. For every product whose \<^verbatim>\<open>epd_url\<close> is a string or a falsy value (or is
  absent): when the URL is absent, falsy or whitespace-only, \<open>evaluate_product\<close> returns
  Red with the reason "Missing EPD file link"; otherwise it returns the row of the
  specification's table for isAbsolute taken on the stripped URL and hasIssueDate taken
  as "truthy, with a string form that is not blank"; the advisories are the standing
  manual-verification note in every case.
\<close>

theorem evaluate_product_decision:
  assumes "url_is_text_or_falsy product"
  shows "evaluate_product product = Inr (decision product)"
proof (cases "url_missing product")
  case True
  then show ?thesis
    by (auto simp: evaluate_product_def decision_def url_missing_def Let_def py_or_None
        is_blank_str_def)
next
  case False
  then obtain s where s: "dict_get product ''epd_url'' = PStr s" "s \<noteq> []" "strip s \<noteq> []"
    using assms
    by (auto simp: url_missing_def url_is_text_or_falsy_def isinstance_str_def Let_def
        is_blank_str_def split: pyval.splits)
  have d: "(py_truthy (py_or (dict_get product ''epd_issue_date'') PNone) \<and>
            strip (py_str (py_or (dict_get product ''epd_issue_date'') PNone)) \<noteq> []) =
           hasIssueDate product"
    by (auto simp: hasIssueDate_def Let_def py_or_None strip_empty_iff)
  show ?thesis
    using False s unfolding evaluate_product_def decision_def Let_def d
    by (simp add: py_or_None is_blank_str_def is_absolute_url_def stripped_isAbsolute_def
        spec_isAbsolute_def spec_table_def Let_def url_missing_def)
qed

theorem evaluate_product_decision_witness:
  "url_is_text_or_falsy
     [(''epd_url'', PStr '' https://example.org/a.pdf''),
      (''epd_issue_date'', PStr ''2024-01-01'')] \<and>
   evaluate_product
     [(''epd_url'', PStr '' https://example.org/a.pdf''),
      (''epd_issue_date'', PStr ''2024-01-01'')] =
   Inr (''Green'', [''EPD link is accessible; please verify the issue date manually''],
        [''Please manually verify the validity period of all EPDs''])"
proof -
  have h: "url_is_text_or_falsy
     [(''epd_url'', PStr '' https://example.org/a.pdf''),
      (''epd_issue_date'', PStr ''2024-01-01'')]"
    by (simp add: url_is_text_or_falsy_def dict_get_def dict_get_default_def isinstance_str_def)
  have "decision
     [(''epd_url'', PStr '' https://example.org/a.pdf''),
      (''epd_issue_date'', PStr ''2024-01-01'')] =
     (''Green'', [''EPD link is accessible; please verify the issue date manually''],
        [''Please manually verify the validity period of all EPDs''])"
    by code_simp
  then show ?thesis
    using h evaluate_product_decision [OF h] by simp
qed

text \<open>
  C6: \<open>evaluate_product\<close> is not total. When \<^verbatim>\<open>epd_url\<close> holds a truthy value that is not
  a string (a number, \<^verbatim>\<open>True\<close>, a non-empty list), the first test lets it through and
  \<^verbatim>\<open>_is_absolute_url\<close> calls \<^verbatim>\<open>strip\<close> on it: the call raises AttributeError.
\<close>

theorem evaluate_product_raises_on_non_text_url:
  assumes "py_truthy (dict_get product ''epd_url'')"
    and "\<not> isinstance_str (dict_get product ''epd_url'')"
  shows "evaluate_product product = Inl AttributeError"
  using assms
  by (cases "dict_get product ''epd_url''")
    (simp_all add: evaluate_product_def py_or_None is_blank_str_def is_absolute_url_def
      isinstance_str_def)

theorem evaluate_product_raises_on_non_text_url_witness:
  "evaluate_product [(''epd_url'', PInt 123)] = Inl AttributeError"
  using evaluate_product_raises_on_non_text_url [of "[(''epd_url'', PInt 123)]"]
  by (simp add: dict_get_def dict_get_default_def isinstance_str_def)


section \<open>Properties of the catalog lookup\<close>

text \<open>
  C5, as the specification states it, fails: \<^verbatim>\<open>get_product_by_id\<close> compares with \<^verbatim>\<open>==\<close>,
  and the integer 5 is not equal to the string "5". A lookup by string form finds no
  product where the specification's lookup by normalised string form finds one.
\<close>

theorem get_product_by_id_string_form_counterexample:
  "get_product_by_id [[(''id'', PInt 5), (''product_name'', PStr ''Board'')]] (PStr ''5'')
     = Inr None \<and>
   spec_getById [[(''id'', PInt 5), (''product_name'', PStr ''Board'')]] (PStr ''5'')
     = Some [(''id'', PInt 5), (''product_name'', PStr ''Board'')]"
  by code_simp

text \<open>
  C5, amended. On a catalog whose products all carry an \<^verbatim>\<open>id\<close>, \<^verbatim>\<open>get_product_by_id\<close>
  returns the first product whose identifier is equal to the argument under Python's
  \<^verbatim>\<open>==\<close> (no normalisation to strings), and \<^verbatim>\<open>None\<close> when there is none.
\<close>

theorem get_product_by_id_first_equal:
  assumes "\<forall>p\<in>set products. dict_has p ''id''"
  shows "get_product_by_id products product_id =
         Inr (find (\<lambda>p. py_eq (dict_get p ''id'') product_id) products)"
  using assms
  by (induction products) (auto simp: dict_has_def dict_get_def dict_get_default_def)

theorem get_product_by_id_first_equal_witness:
  "get_product_by_id [[(''id'', PInt 4)], [(''id'', PInt 5), (''product_name'', PStr ''Board'')]]
     (PInt 5) = Inr (Some [(''id'', PInt 5), (''product_name'', PStr ''Board'')])"
  using get_product_by_id_first_equal
    [of "[[(''id'', PInt 4)], [(''id'', PInt 5), (''product_name'', PStr ''Board'')]]" "PInt 5"]
  by (simp add: dict_has_def dict_get_def dict_get_default_def)

section \<open>Properties of the pagination\<close>

lemma paginate_results:
  "results (paginate xs p pp) =
     take (nat (min 100 (max 10 pp)))
          (drop (nat ((max 1 p - 1) * min 100 (max 10 pp))) xs)"
proof -
  define q where "q = min 100 (max 10 pp)"
  define g where "g = max 1 p"
  have q: "10 \<le> q" "q \<le> 100" by (auto simp: q_def)
  have g: "1 \<le> g" by (simp add: g_def)
  have s: "0 \<le> (g - 1) * q" using q g by simp
  have e: "0 \<le> (g - 1) * q + q" using s q by linarith
  have "py_slice xs ((g - 1) * q) ((g - 1) * q + q) = take (nat q) (drop (nat ((g - 1) * q)) xs)"
  proof -
    let ?n = "length xs"
    let ?a = "min (nat ((g - 1) * q)) ?n"
    let ?b = "min (nat ((g - 1) * q + q)) ?n"
    have sl: "py_slice xs ((g - 1) * q) ((g - 1) * q + q) = take (?b - ?a) (drop ?a xs)"
      using s e by (simp add: py_slice_def slice_bound_def Let_def)
    have nb: "nat ((g - 1) * q + q) = nat ((g - 1) * q) + nat q"
      using s q by (simp add: nat_add_distrib)
    show ?thesis
    proof (cases "nat ((g - 1) * q) \<le> ?n")
      case True
      then have a: "?a = nat ((g - 1) * q)" by simp
      have "take (?b - ?a) (drop ?a xs) = take (nat q) (drop ?a xs)"
        unfolding a nb using True by (simp add: min_def)
      then show ?thesis using sl a by simp
    next
      case False
      then show ?thesis using sl by simp
    qed
  qed
  then show ?thesis
    by (simp add: paginate_def Let_def q_def g_def)
qed

lemma paginate_total_pages:
  "total_pages (paginate xs p pp) =
     (int (length xs) + min 100 (max 10 pp) - 1) div min 100 (max 10 pp)"
  by (simp add: paginate_def Let_def)

text \<open>
  C9: over a result list of 97 items with \<^verbatim>\<open>per_page = 50\<close>, the endpoint reports two
  pages; page 2 holds the items at positions 51 to 97, which are 47 items; and any page
  after the last holds the empty list, with no error.
\<close>

theorem paginate_97_by_50:
  assumes "length xs = 97"
  shows "total_pages (paginate xs 2 50) = 2
       \<and> results (paginate xs 2 50) = map (\<lambda>i. xs ! i) [50..<97]
       \<and> count (paginate xs 2 50) = 47
       \<and> (\<forall>p. total_pages (paginate xs p 50) < p \<longrightarrow> results (paginate xs p 50) = [])"
proof -
  have tp: "\<And>p. total_pages (paginate xs p 50) = 2"
    using assms by (simp add: paginate_total_pages)
  have r2: "results (paginate xs 2 50) = drop 50 xs"
    using assms by (simp add: paginate_results)
  have d: "drop 50 xs = map (\<lambda>i. xs ! i) [50..<97]"
    using assms by (simp add: list_eq_iff_nth_eq del: upt_rec_numeral)
  have c: "count (paginate xs 2 50) = length (results (paginate xs 2 50))"
    by (simp add: paginate_def Let_def)
  have beyond: "results (paginate xs p 50) = []" if "2 < p" for p
  proof -
    have "97 \<le> nat ((max 1 p - 1) * 50)" using that by simp
    then show ?thesis using assms by (simp add: paginate_results)
  qed
  show ?thesis
    using tp r2 d c beyond assms by (simp del: upt_rec_numeral)
qed

theorem paginate_97_by_50_witness:
  "total_pages (paginate (map int [0..<97]) 2 50) = 2
   \<and> results (paginate (map int [0..<97]) 2 50) = map int [50..<97]
   \<and> results (paginate (map int [0..<97]) 3 50) = []"
proof -
  have l: "length (map int [0..<97]) = 97" by simp
  have "map (\<lambda>i. map int [0..<97] ! i) [50..<97] = map int [50..<97]"
    by (rule map_cong) (auto simp del: upt_rec_numeral)
  moreover have "total_pages (paginate (map int [0..<97]) 3 50) < 3"
    using paginate_97_by_50 [OF l] by (simp add: paginate_total_pages)
  ultimately show ?thesis
    using paginate_97_by_50 [OF l] by (simp del: upt_rec_numeral)
qed


section \<open>Properties of the semantic retriever\<close>

lemma collect_results_char:
  assumes "collect_results ps F k xs acc = Inr r"
    and "length acc < nat (max 1 k)"
  shows "r = take (nat (max 1 k)) (acc @ map (\<lambda>x. (ps ! fst x, snd x)) (filter (eligible ps F) xs))"
  using assms
proof (induction xs arbitrary: acc)
  case Nil
  then show ?case by simp
next
  case (Cons x xs)
  obtain idx s where x: "x = (idx, s)" by (cases x)
  show ?case
  proof (cases "float_lt s SIMILARITY_THRESHOLD")
    case True
    then show ?thesis using Cons x by (simp add: eligible_def)
  next
    case thr: False
    show ?thesis
    proof (cases "length ps \<le> idx")
      case True
      then show ?thesis using Cons.prems thr x by simp
    next
      case inb: False
      show ?thesis
      proof (cases "filter_check F (ps ! idx)")
        case (Inl e)
        then show ?thesis using Cons.prems thr inb x by simp
      next
        case (Inr ok)
        show ?thesis
        proof (cases ok)
          case False
          then show ?thesis using Cons Inr thr inb x by (simp add: eligible_def)
        next
          case True
          let ?acc' = "acc @ [(ps ! idx, s)]"
          have el: "eligible ps F x" using True Inr thr inb x by (simp add: eligible_def)
          show ?thesis
          proof (cases "k \<le> int (length ?acc')")
            case full: True
            then have r: "r = ?acc'" using Cons.prems True Inr thr inb x by simp
            have n: "nat (max 1 k) = length ?acc'" using full Cons.prems(2) by auto
            have "acc @ map (\<lambda>x. (ps ! fst x, snd x)) (filter (eligible ps F) (x # xs))
                  = ?acc' @ map (\<lambda>x. (ps ! fst x, snd x)) (filter (eligible ps F) xs)"
              using el x by simp
            then show ?thesis unfolding n r by (simp del: filter.simps)
          next
            case more: False
            then have c: "collect_results ps F k xs ?acc' = Inr r"
              using Cons.prems True Inr thr inb x by simp
            have "length ?acc' < nat (max 1 k)" using more by auto
            from Cons.IH [OF c this] show ?thesis using el x by simp
          qed
        qed
      qed
    qed
  qed
qed

lemma float_lt_le: "float_lt a b \<Longrightarrow> float_le a b"
  by (cases a; cases b) (auto simp: float_le_def)

lemma float_le_trans: "float_le a b \<Longrightarrow> float_le b c \<Longrightarrow> float_le a c"
  by (cases a; cases b; cases c) (auto simp: float_le_def)

lemma set_insert_by_similarity: "set (insert_by_similarity x ys) = insert x (set ys)"
  by (induction ys) auto

lemma set_sort_by_similarity: "set (sort_by_similarity xs) = set xs"
  by (induction xs) (simp_all add: sort_by_similarity_def set_insert_by_similarity)

lemma sorted_insert_by_similarity:
  assumes "snd x \<noteq> NaN" and "no_nan ys"
    and "sorted_wrt (\<lambda>a b. float_le (snd b) (snd a)) ys"
  shows "sorted_wrt (\<lambda>a b. float_le (snd b) (snd a)) (insert_by_similarity x ys)"
  using assms(2,3)
proof (induction ys)
  case Nil
  then show ?case by simp
next
  case (Cons y ys)
  have y: "snd y \<noteq> NaN" and ys: "no_nan ys"
    using Cons.prems(1) by (simp_all add: no_nan_def)
  have after: "\<forall>z\<in>set ys. float_le (snd z) (snd y)"
    and sorted: "sorted_wrt (\<lambda>a b. float_le (snd b) (snd a)) ys"
    using Cons.prems(2) by simp_all
  show ?case
  proof (cases "float_lt (snd x) (snd y)")
    case True
    then have "float_le (snd x) (snd y)" by (rule float_lt_le)
    with after have "\<forall>z\<in>set (insert_by_similarity x ys). float_le (snd z) (snd y)"
      by (simp add: set_insert_by_similarity)
    with True Cons.IH [OF ys sorted] show ?thesis by simp
  next
    case False
    with assms(1) y have xy: "float_le (snd y) (snd x)" by (simp add: float_le_def)
    have "\<forall>z\<in>set ys. float_le (snd z) (snd x)"
      using after xy by (blast intro: float_le_trans)
    with False xy Cons.prems(2) show ?thesis by simp
  qed
qed

lemma sorted_sort_by_similarity:
  "no_nan xs \<Longrightarrow> sorted_wrt (\<lambda>a b. float_le (snd b) (snd a)) (sort_by_similarity xs)"
proof (induction xs)
  case Nil
  then show ?case by (simp add: sort_by_similarity_def)
next
  case (Cons x xs)
  from Cons.prems have x: "snd x \<noteq> NaN" and xs: "no_nan xs"
    by (simp_all add: no_nan_def)
  from xs have "no_nan (sort_by_similarity xs)"
    by (simp add: no_nan_def list_all_iff set_sort_by_similarity)
  from sorted_insert_by_similarity [OF x this Cons.IH [OF xs]]
  show ?case by (simp add: sort_by_similarity_def)
qed

lemma no_nan_enumerate:
  "list_all (\<lambda>s. s \<noteq> NaN) sims \<Longrightarrow> no_nan (zip [0..<length sims] sims)"
  by (auto simp: no_nan_def list_all_iff dest: set_zip_rightD)

lemma sorted_wrt_take_drop:
  assumes "sorted_wrt R xs" "a \<in> set (take n xs)" "b \<in> set (drop n xs)"
  shows "R a b"
proof -
  have "sorted_wrt R (take n xs @ drop n xs)" using assms(1) by simp
  then show ?thesis using assms(2,3) unfolding sorted_wrt_append by blast
qed


lemma collect_results_spec:
  assumes "collect_results ps F k xs [] = Inr r"
  shows "r = map (\<lambda>x. (ps ! fst x, snd x)) (take (nat (max 1 k)) (filter (eligible ps F) xs))"
proof -
  have "length ([] :: (pydict \<times> pyfloat) list) < nat (max 1 k)" by simp
  from collect_results_char [OF assms this] show ?thesis by (simp add: take_map)
qed

lemma category_filter_mono:
  assumes "py_truthy (dict_get f ''categories'') \<longrightarrow>
             dict_get f' ''categories'' = dict_get f ''categories''"
    and "category_filter p f' = Inr True"
  shows "category_filter p f = Inr True"
proof (cases "py_truthy (dict_get f ''categories'')")
  case True
  with assms(1) have "dict_get f' ''categories'' = dict_get f ''categories''" by simp
  then have "category_filter p f = category_filter p f'"
    by (simp only: category_filter_def)
  with assms(2) show ?thesis by simp
next
  case False
  then show ?thesis by (simp add: category_filter_def)
qed

lemma manufacturer_filter_mono:
  assumes "py_truthy (dict_get f ''manufacturers'') \<longrightarrow>
             dict_get f' ''manufacturers'' = dict_get f ''manufacturers''"
    and "manufacturer_filter p f' = Inr True"
  shows "manufacturer_filter p f = Inr True"
proof (cases "py_truthy (dict_get f ''manufacturers'')")
  case True
  with assms(1) have "dict_get f' ''manufacturers'' = dict_get f ''manufacturers''" by simp
  then have "manufacturer_filter p f = manufacturer_filter p f'"
    by (simp only: manufacturer_filter_def)
  with assms(2) show ?thesis by simp
next
  case False
  then show ?thesis by (simp add: manufacturer_filter_def)
qed

lemma certification_filter_mono:
  assumes "py_truthy (dict_get f ''certifications'') \<longrightarrow>
             dict_get f' ''certifications'' = dict_get f ''certifications''"
    and "certification_filter p f' = Inr True"
  shows "certification_filter p f = Inr True"
proof (cases "py_truthy (dict_get f ''certifications'')")
  case True
  with assms(1) have "dict_get f' ''certifications'' = dict_get f ''certifications''" by simp
  then have "certification_filter p f = certification_filter p f'"
    by (simp only: certification_filter_def)
  with assms(2) show ?thesis by simp
next
  case False
  then show ?thesis by (simp add: certification_filter_def)
qed

lemma sustainability_mono:
  assumes "py_truthy (dict_get f ''has_certifications'') \<longrightarrow>
             dict_get f' ''has_certifications'' = dict_get f ''has_certifications''"
    and "py_truthy (dict_get f ''has_carbon_data'') \<longrightarrow>
             dict_get f' ''has_carbon_data'' = dict_get f ''has_carbon_data''"
    and "sustainability_filter p f'"
  shows "sustainability_filter p f"
  using assms by (auto simp: sustainability_filter_def split: if_splits)

lemma passes_filters_Inr_True:
  "passes_filters p f = Inr True \<longleftrightarrow>
     category_filter p f = Inr True \<and> manufacturer_filter p f = Inr True \<and>
     certification_filter p f = Inr True \<and> sustainability_filter p f"
  by (auto simp: passes_filters_def split: sum.splits if_splits)

lemma passes_filters_mono:
  assumes "list_all (\<lambda>k. py_truthy (dict_get f k) \<longrightarrow> dict_get f' k = dict_get f k) filter_keys"
    and "passes_filters p f' = Inr True"
  shows "passes_filters p f = Inr True"
proof -
  have k: "py_truthy (dict_get f ''categories'') \<longrightarrow> dict_get f' ''categories'' = dict_get f ''categories''"
    "py_truthy (dict_get f ''manufacturers'') \<longrightarrow> dict_get f' ''manufacturers'' = dict_get f ''manufacturers''"
    "py_truthy (dict_get f ''certifications'') \<longrightarrow> dict_get f' ''certifications'' = dict_get f ''certifications''"
    "py_truthy (dict_get f ''has_certifications'') \<longrightarrow> dict_get f' ''has_certifications'' = dict_get f ''has_certifications''"
    "py_truthy (dict_get f ''has_carbon_data'') \<longrightarrow> dict_get f' ''has_carbon_data'' = dict_get f ''has_carbon_data''"
    using assms(1) by (simp_all add: filter_keys_def)
  from assms(2) have b: "category_filter p f' = Inr True" "manufacturer_filter p f' = Inr True"
    "certification_filter p f' = Inr True" "sustainability_filter p f'"
    by (simp_all add: passes_filters_Inr_True)
  show ?thesis
    unfolding passes_filters_Inr_True
    using category_filter_mono [OF k(1) b(1)] manufacturer_filter_mono [OF k(2) b(2)]
      certification_filter_mono [OF k(3) b(3)] sustainability_mono [OF k(4) k(5) b(4)]
    by simp
qed

lemma passes_filters_empty: "passes_filters p [] = Inr True"
  by (simp add: passes_filters_Inr_True category_filter_def manufacturer_filter_def
      certification_filter_def sustainability_filter_def dict_get_def dict_get_default_def)

lemma filter_check_as_dict:
  "filter_check F p = passes_filters p (case F of None \<Rightarrow> [] | Some f \<Rightarrow> f)"
  by (simp add: filter_check_def passes_filters_empty split: option.splits)

lemma filter_value_as_dict:
  "filter_value F k = dict_get (case F of None \<Rightarrow> [] | Some f \<Rightarrow> f) k"
  by (simp add: filter_value_def dict_get_def dict_get_default_def split: option.splits)

lemma filter_check_mono:
  assumes "filters_extend F' F" and "filter_check F' p = Inr True"
  shows "filter_check F p = Inr True"
  using assms unfolding filters_extend_def filter_check_as_dict filter_value_as_dict
  by (rule passes_filters_mono)

lemma length_filter_mono:
  assumes "\<And>x. x \<in> set xs \<Longrightarrow> P x \<Longrightarrow> Q x"
  shows "length (filter P xs) \<le> length (filter Q xs)"
  using assms by (induction xs) auto


text \<open>
  C2, as the specification states it, fails. The loop tests the length after it has added
  a result, so a call with \<^verbatim>\<open>top_k = -1\<close> returns one result, which is more than
  \<open>topK\<close>.
\<close>

theorem semantic_search_negative_top_k_counterexample:
  "semantic_search sort_by_similarity True (Inr [Num (1/2)]) [[(''id'', PInt 1)]]
     (Some (- 1)) None
     = Inr [([(''id'', PInt 1)], Num (1/2))]
   \<and> effective_top_k (Some (- 1)) < int (length [([(''id'', PInt 1)], Num (1/2))])"
  by (simp add: semantic_search_def effective_top_k_def sort_by_similarity_def
      SIMILARITY_THRESHOLD_def filter_check_def)

text \<open>
  It also fails on a NaN score. \<^verbatim>\<open>nan < 0.3\<close> is false, so the entry is kept, and a list
  that holds NaN beside another score is not sorted in whichever order the sort has left
  the two entries.
\<close>

lemma semantic_search_nan_not_sorted:
  assumes "list_sort [(0, NaN), (1, Num (9/10))] = [(0, NaN), (1, Num (9/10))]
         \<or> list_sort [(0, NaN), (1, Num (9/10))] = [(1, Num (9/10)), (0, NaN)]"
  shows "\<exists>r. semantic_search list_sort True (Inr [NaN, Num (9/10)])
               [[(''id'', PInt 1)], [(''id'', PInt 2)]] None None = Inr r
             \<and> length r = 2 \<and> \<not> sorted_by_score r"
  using assms
  by (auto simp: semantic_search_def effective_top_k_def TOP_K_SEMANTIC_def
      SIMILARITY_THRESHOLD_def filter_check_def sorted_by_score_def float_le_def
      upt_rec_numeral)

text \<open>
  C2, amended. Let no similarity score be NaN, so that the sort is the stable sort by
  falling score, and let \<open>topK\<close> be at least one (\<^verbatim>\<open>None\<close> and 0 stand for the default).
  When \<open>semantic_search\<close> returns, its result is the retrieval of the specification (the
  whole similarity list sorted by falling score, then the threshold and the filters, then
  the first \<open>topK\<close>); it is sorted by falling score; no result is below the threshold; it
  has at most \<open>topK\<close> entries; and every eligible entry of the catalog that was left out
  scores no higher than each entry returned.
\<close>

theorem semantic_search_highest_scoring:
  assumes srt: "is_list_sort list_sort"
    and nn: "list_all (\<lambda>s. s \<noteq> NaN) sims"
    and ok: "semantic_search list_sort client (Inr sims) products top_k filters = Inr r"
    and k: "1 \<le> effective_top_k top_k"
  shows "r = spec_search products filters (nat (effective_top_k top_k)) sims
       \<and> sorted_by_score r
       \<and> list_all (\<lambda>y. \<not> float_lt (snd y) SIMILARITY_THRESHOLD) r
       \<and> length r \<le> nat (effective_top_k top_k)
       \<and> (\<forall>x\<in>set (zip [0..<length sims] sims).
            eligible products filters x \<and> (products ! fst x, snd x) \<notin> set r
              \<longrightarrow> list_all (\<lambda>y. float_le (snd x) (snd y)) r)"
proof -
  let ?E = "zip [0..<length sims] sims"
  let ?S = "sort_by_similarity ?E"
  let ?K = "nat (effective_top_k top_k)"
  let ?L = "filter (eligible products filters) ?S"
  let ?g = "\<lambda>x. (products ! fst x, snd x)"
  have E: "no_nan ?E" using nn by (rule no_nan_enumerate)
  with srt have ls: "list_sort ?E = ?S" by (simp add: is_list_sort_def)
  have mk: "nat (max 1 (effective_top_k top_k)) = ?K" using k by simp
  have "collect_results products filters (effective_top_k top_k) ?S [] = Inr r"
    using ok ls by (simp add: semantic_search_def split: if_splits)
  from collect_results_spec [OF this] have r: "r = map ?g (take ?K ?L)"
    unfolding mk .
  then have spec: "r = spec_search products filters ?K sims"
    by (simp add: spec_search_def)
  have sL: "sorted_wrt (\<lambda>a b. float_le (snd b) (snd a)) ?L"
    using sorted_sort_by_similarity [OF E] by (simp add: sorted_wrt_filter)
  have srt_r: "sorted_by_score r"
    unfolding r sorted_by_score_def using sL by (simp add: sorted_wrt_map sorted_wrt_take)
  have thr: "list_all (\<lambda>y. \<not> float_lt (snd y) SIMILARITY_THRESHOLD) r"
    unfolding r by (auto simp: list_all_iff eligible_def dest!: in_set_takeD)
  have len: "length r \<le> ?K" unfolding r by simp
  have best: "list_all (\<lambda>y. float_le (snd x) (snd y)) r"
    if x: "x \<in> set ?E" and e: "eligible products filters x"
      and n: "(products ! fst x, snd x) \<notin> set r" for x
  proof -
    have "x \<in> set ?L" using x e by (simp add: set_sort_by_similarity)
    moreover have "x \<notin> set (take ?K ?L)" using n unfolding r by force
    ultimately have d: "x \<in> set (drop ?K ?L)"
      by (metis Un_iff append_take_drop_id set_append)
    show ?thesis
      unfolding r list_all_iff
    proof
      fix y assume "y \<in> set (map ?g (take ?K ?L))"
      then obtain z where z: "z \<in> set (take ?K ?L)" "y = ?g z" by auto
      from sorted_wrt_take_drop [OF sL z(1) d] show "float_le (snd x) (snd y)"
        using z(2) by simp
    qed
  qed
  show ?thesis using spec srt_r thr len best by blast
qed

theorem semantic_search_highest_scoring_witness:
  "is_list_sort sort_by_similarity
   \<and> list_all (\<lambda>s. s \<noteq> NaN) [Num (1/2), Num (1/5), Num (9/10), Num (1/2)]
   \<and> semantic_search sort_by_similarity True (Inr [Num (1/2), Num (1/5), Num (9/10), Num (1/2)])
       [[(''id'', PInt 1)], [(''id'', PInt 2)], [(''id'', PInt 3)], [(''id'', PInt 4)]]
       (Some 2) None
     = Inr [([(''id'', PInt 3)], Num (9/10)), ([(''id'', PInt 1)], Num (1/2))]
   \<and> spec_search
        [[(''id'', PInt 1)], [(''id'', PInt 2)], [(''id'', PInt 3)], [(''id'', PInt 4)]]
        None 2 [Num (1/2), Num (1/5), Num (9/10), Num (1/2)]
     = [([(''id'', PInt 3)], Num (9/10)), ([(''id'', PInt 1)], Num (1/2))]
   \<and> sorted_by_score [([(''id'', PInt 3)], Num (9/10)), ([(''id'', PInt 1)], Num (1/2))]"
proof -
  let ?ps = "[[(''id'', PInt 1)], [(''id'', PInt 2)], [(''id'', PInt 3)], [(''id'', PInt 4)]]"
  let ?sims = "[Num (1/2), Num (1/5), Num (9/10), Num (1/2)]"
  have s: "is_list_sort sort_by_similarity"
    by (simp add: is_list_sort_def)
  have nn: "list_all (\<lambda>s. s \<noteq> NaN) ?sims"
    by simp
  have ok: "semantic_search sort_by_similarity True (Inr ?sims) ?ps (Some 2) None
            = Inr [([(''id'', PInt 3)], Num (9/10)), ([(''id'', PInt 1)], Num (1/2))]"
    by (simp add: semantic_search_def effective_top_k_def sort_by_similarity_def
        SIMILARITY_THRESHOLD_def filter_check_def upt_rec_numeral)
  have k: "1 \<le> effective_top_k (Some 2)"
    by (simp add: effective_top_k_def)
  have n: "nat (effective_top_k (Some 2)) = 2"
    by (simp add: effective_top_k_def)
  note t = semantic_search_highest_scoring [OF s nn ok k, unfolded n]
  from t have a: "[([(''id'', PInt 3)], Num (9/10)), ([(''id'', PInt 1)], Num (1/2))]
                    = spec_search ?ps None 2 ?sims"
    by (rule conjunct1)
  from t have b: "sorted_by_score [([(''id'', PInt 3)], Num (9/10)), ([(''id'', PInt 1)], Num (1/2))]"
    by (rule conjunct2 [THEN conjunct1])
  from s nn ok a [symmetric] b show ?thesis
    by (intro conjI)
qed

text \<open>
  C7: with the same query, \<open>topK\<close> and threshold, a call whose filter set adds filters to
  \<open>F\<close> returns at most as many results as the call with \<open>F\<close>; the call without filters is
  the case where \<open>F\<close> is \<^verbatim>\<open>None\<close>. This holds whatever the sort leaves, NaN scores
  included.
\<close>

theorem semantic_search_filter_monotone:
  assumes "semantic_search list_sort client similarities products top_k F' = Inr r'"
    and "semantic_search list_sort client similarities products top_k F = Inr r"
    and "filters_extend F' F"
  shows "length r' \<le> length r"
proof -
  from assms(1) obtain sims where s: "similarities = Inr sims" and c: client
    by (auto simp: semantic_search_def split: if_splits sum.splits)
  let ?S = "list_sort (zip [0..<length sims] sims)"
  let ?k = "effective_top_k top_k"
  have r': "r' = map (\<lambda>x. (products ! fst x, snd x)) (take (nat (max 1 ?k)) (filter (eligible products F') ?S))"
    using assms(1) s c by (intro collect_results_spec) (simp add: semantic_search_def)
  have r: "r = map (\<lambda>x. (products ! fst x, snd x)) (take (nat (max 1 ?k)) (filter (eligible products F) ?S))"
    using assms(2) s c by (intro collect_results_spec) (simp add: semantic_search_def)
  have "length (filter (eligible products F') ?S) \<le> length (filter (eligible products F) ?S)"
    by (rule length_filter_mono) (auto simp: eligible_def intro: filter_check_mono [OF assms(3)])
  then show ?thesis unfolding r r' by simp
qed

theorem semantic_search_filter_monotone_witness:
  "filters_extend (Some [(''has_certifications'', PBool True)]) None
   \<and> semantic_search sort_by_similarity True (Inr [Num (1/2), Num (9/10)])
        [[(''id'', PInt 1)], [(''id'', PInt 2), (''certifications'', PList [PDict []])]]
        None (Some [(''has_certifications'', PBool True)])
      = Inr [([(''id'', PInt 2), (''certifications'', PList [PDict []])], Num (9/10))]
   \<and> semantic_search sort_by_similarity True (Inr [Num (1/2), Num (9/10)])
        [[(''id'', PInt 1)], [(''id'', PInt 2), (''certifications'', PList [PDict []])]]
        None None
      = Inr [([(''id'', PInt 2), (''certifications'', PList [PDict []])], Num (9/10)),
             ([(''id'', PInt 1)], Num (1/2))]
   \<and> length [([(''id'', PInt 2), (''certifications'', PList [PDict []])], Num (9/10))]
      \<le> length [([(''id'', PInt 2), (''certifications'', PList [PDict []])], Num (9/10)),
                 ([(''id'', PInt 1)], Num (1/2))]"
proof -
  let ?ps = "[[(''id'', PInt 1)], [(''id'', PInt 2), (''certifications'', PList [PDict []])]]"
  let ?F = "Some [(''has_certifications'', PBool True)]"
  have e: "filters_extend ?F None"
    by (simp add: filters_extend_def filter_keys_def filter_value_def)
  have a: "semantic_search sort_by_similarity True (Inr [Num (1/2), Num (9/10)]) ?ps None ?F
           = Inr [([(''id'', PInt 2), (''certifications'', PList [PDict []])], Num (9/10))]"
    by (simp add: semantic_search_def effective_top_k_def TOP_K_SEMANTIC_def
        sort_by_similarity_def SIMILARITY_THRESHOLD_def filter_check_def upt_rec_numeral
        passes_filters_def category_filter_def manufacturer_filter_def
        certification_filter_def sustainability_filter_def dict_get_def dict_get_default_def)
  have b: "semantic_search sort_by_similarity True (Inr [Num (1/2), Num (9/10)]) ?ps None None
           = Inr [([(''id'', PInt 2), (''certifications'', PList [PDict []])], Num (9/10)),
                  ([(''id'', PInt 1)], Num (1/2))]"
    by (simp add: semantic_search_def effective_top_k_def TOP_K_SEMANTIC_def
        sort_by_similarity_def SIMILARITY_THRESHOLD_def filter_check_def upt_rec_numeral)
  from semantic_search_filter_monotone [OF a b e] e a b show ?thesis by simp
qed

section \<open>Properties of the rank refiner\<close>












section \<open>Properties of the EPD screener\<close>

lemma scan_product_unknown:
  assumes "unknown_id ix pid"
  shows "scan_product ix sid pid (h, m, l) = Inr (unknown_row sid pid, unknown_entry pid, (h + 1, m, l))"
proof -
  have p: "product_or_empty ix pid = []"
    using assms by (simp add: product_or_empty_def unknown_id_def)
  have e: "evaluate_product [] = Inr (''Red'', [''Missing EPD file link''], [MANUAL_NOTE])"
    by (simp add: evaluate_product_def dict_get_def dict_get_default_def py_or_def)
  show ?thesis
    unfolding scan_product_def p
    by (simp add: e detect_cert_state_def extract_first_image_url_def iter_dicts_def
        dict_get_def dict_get_default_def py_or_def classify_def unknown_row_def
        unknown_entry_def stripped_text_def Let_def)
qed

lemma scan_products_unknown:
  assumes "list_all (unknown_id ix) ids"
  shows "scan_products ix sid ids ((h, m, l), rows, pl) =
         Inr ((h + length ids, m, l), rows @ map (unknown_row sid) ids, pl @ map unknown_entry ids)"
  using assms
  by (induction ids arbitrary: h rows pl) (simp_all add: scan_product_unknown)

lemma classify_bump:
  "classify has_epd has_any c = (certificate_tier has_any has_epd, bump (certificate_tier has_any has_epd) c)"
  by (cases c) (simp add: classify_def bump_def certificate_tier_def)

lemma scan_product_Inr:
  assumes "scan_product ix sid pid c = Inr (sr, entry, c')"
  shows "\<exists>has_any has_epd tier.
           detect_cert_state (product_or_empty ix pid) = Inr (has_any, has_epd)
         \<and> evaluate_product (product_or_empty ix pid) = Inr (tier, reasons sr, advisories sr)
         \<and> risk_level sr = certificate_tier has_any has_epd
         \<and> input_product_id sr = pid
         \<and> entry_risk_level entry = risk_level sr
         \<and> entry_input_product_id entry = pid
         \<and> c' = bump (risk_level sr) c"
proof -
  let ?p = "product_or_empty ix pid"
  from assms obtain has_any has_epd where d: "detect_cert_state ?p = Inr (has_any, has_epd)"
    by (cases "detect_cert_state ?p") (auto simp: scan_product_def Let_def)
  from assms d obtain certs where c: "iter_dicts (py_or (dict_get ?p ''certifications'') (PList [])) = Inr certs"
    by (cases "iter_dicts (py_or (dict_get ?p ''certifications'') (PList []))")
       (auto simp: scan_product_def Let_def)
  from assms d c obtain cats where k: "iter_dicts (py_or (dict_get ?p ''product_categories'') (PList [])) = Inr cats"
    by (cases "iter_dicts (py_or (dict_get ?p ''product_categories'') (PList []))")
       (auto simp: scan_product_def Let_def)
  from assms d c k obtain thumb where t: "extract_first_image_url ?p = Inr thumb"
    by (cases "extract_first_image_url ?p") (auto simp: scan_product_def Let_def)
  from assms d c k t obtain tier rs advs where e: "evaluate_product ?p = Inr (tier, rs, advs)"
    by (cases "evaluate_product ?p") (auto simp: scan_product_def Let_def)
  from assms show ?thesis
    unfolding scan_product_def Let_def d c k t e
    by (auto simp: classify_bump)
qed


lemma scan_product_heuristic:
  assumes "scan_product ix sid pid c0 = Inr (sr, entry, c1)"
  shows "heuristic_row ix pid sr \<and> entry_risk_level entry = risk_level sr
         \<and> entry_input_product_id entry = pid"
  using scan_product_Inr [OF assms] by (auto simp: heuristic_row_def)

lemma scan_products_char:
  assumes "scan_products ix sid ids (c, rows, pl) = Inr (c', rows', pl')"
  shows "\<exists>new. length new = length ids \<and> rows' = rows @ map fst new \<and> pl' = pl @ map snd new
           \<and> list_all2 (\<lambda>pid r. heuristic_row ix pid (fst r)
                 \<and> entry_risk_level (snd r) = risk_level (fst r)
                 \<and> entry_input_product_id (snd r) = pid) ids new
           \<and> c' = fold (\<lambda>r. bump (risk_level (fst r))) new c"
  using assms
proof (induction ids arbitrary: c rows pl)
  case Nil
  then show ?case by simp
next
  case (Cons pid ids)
  from Cons.prems obtain sr entry c1 where
    s: "scan_product ix sid pid c = Inr (sr, entry, c1)"
    and r: "scan_products ix sid ids (c1, rows @ [sr], pl @ [entry]) = Inr (c', rows', pl')"
    by (cases "scan_product ix sid pid c") auto
  from scan_product_Inr [OF s] have c1: "c1 = bump (risk_level sr) c" by blast
  from Cons.IH [OF r] obtain new where n: "length new = length ids"
    "rows' = (rows @ [sr]) @ map fst new" "pl' = (pl @ [entry]) @ map snd new"
    "list_all2 (\<lambda>pid r. heuristic_row ix pid (fst r)
                 \<and> entry_risk_level (snd r) = risk_level (fst r)
                 \<and> entry_input_product_id (snd r) = pid) ids new"
    "c' = fold (\<lambda>r. bump (risk_level (fst r))) new c1"
    by blast
  show ?case
  proof (intro exI [of _ "(sr, entry) # new"] conjI)
    show "list_all2 (\<lambda>pid r. heuristic_row ix pid (fst r)
                 \<and> entry_risk_level (snd r) = risk_level (fst r)
                 \<and> entry_input_product_id (snd r) = pid) (pid # ids) ((sr, entry) # new)"
      using n(4) scan_product_heuristic [OF s] by simp
  qed (use n c1 in simp_all)
qed

lemma heuristic_row_tier:
  assumes "heuristic_row ix pid sr"
  shows "risk_level sr \<in> {''Green'', ''Yellow'', ''Red''}"
proof (cases "detect_cert_state (product_or_empty ix pid)")
  case (Inl e)
  with assms show ?thesis by (simp add: heuristic_row_def)
next
  case d: (Inr st)
  show ?thesis
  proof (cases "evaluate_product (product_or_empty ix pid)")
    case (Inl e)
    with assms d show ?thesis by (simp add: heuristic_row_def split: prod.splits)
  next
    case (Inr t)
    with assms d show ?thesis
      by (simp add: heuristic_row_def certificate_tier_def split: prod.splits if_splits)
  qed
qed

lemma fold_bump_high:
  assumes "\<forall>t\<in>set ts. t \<in> {''Green'', ''Yellow'', ''Red''}"
  shows "fold bump ts (h, m, l) =
           (h + length (filter (\<lambda>t. t = ''Red'') ts),
            m + length (filter (\<lambda>t. t = ''Yellow'') ts),
            l + length (filter (\<lambda>t. t = ''Green'') ts))"
  using assms
  by (induction ts arbitrary: h m l) (auto simp: bump_def)

lemma create_scan_created:
  assumes "create_scan db ix request = Inr (db', ScanCreated summary payload)"
  shows "\<exists>ids rows.
           read_product_ids request = Inr (Inr ids)
         \<and> scan_results db' = scan_results db @ rows
         \<and> list_all2 (heuristic_row ix) ids rows
         \<and> map entry_risk_level payload = map risk_level rows
         \<and> map entry_input_product_id payload = ids
         \<and> counts_high summary = length (filter (\<lambda>r. risk_level r = ''Red'') rows)
         \<and> counts_medium summary = length (filter (\<lambda>r. risk_level r = ''Yellow'') rows)
         \<and> counts_low summary = length (filter (\<lambda>r. risk_level r = ''Green'') rows)
         \<and> counts_total summary = length ids
         \<and> scans db' = scans db @
              [\<lparr> scan_id = Suc (length (scans db)), source = ''local_index'',
                 input_count = length ids, high_risk_count = counts_high summary,
                 medium_risk_count = counts_medium summary,
                 low_risk_count = counts_low summary \<rparr>]"
proof -
  from assms obtain ids where ids: "read_product_ids request = Inr (Inr ids)"
    by (auto simp: create_scan_def split: sum.splits)
  let ?sid = "Suc (length (scans db))"
  from assms ids obtain high med low rows where
    sp: "scan_products ix ?sid ids ((0, 0, 0), [], []) = Inr ((high, med, low), rows, payload)"
    and db': "db' = \<lparr> scans = scans db @
                  [\<lparr> scan_id = ?sid, source = ''local_index'', input_count = length ids,
                     high_risk_count = high, medium_risk_count = med, low_risk_count = low \<rparr>],
                scan_results = scan_results db @ rows \<rparr>"
    and su: "summary = \<lparr> summary_scan_id = ?sid, counts_high = high, counts_medium = med,
                         counts_low = low, counts_total = length ids \<rparr>"
    by (auto simp: create_scan_def Let_def split: sum.splits prod.splits)
  from scan_products_char [OF sp] obtain new where n: "length new = length ids"
    "rows = map fst new" "payload = map snd new"
    "list_all2 (\<lambda>pid r. heuristic_row ix pid (fst r)
                 \<and> entry_risk_level (snd r) = risk_level (fst r)
                 \<and> entry_input_product_id (snd r) = pid) ids new"
    "(high, med, low) = fold (\<lambda>r. bump (risk_level (fst r))) new (0, 0, 0)"
    by auto
  note each = n(4)
  have nth: "\<forall>i<length new. heuristic_row ix (ids ! i) (fst (new ! i))
                 \<and> entry_risk_level (snd (new ! i)) = risk_level (fst (new ! i))
                 \<and> entry_input_product_id (snd (new ! i)) = ids ! i"
    using each by (simp add: list_all2_conv_all_nth)
  have h: "list_all2 (heuristic_row ix) ids rows"
    unfolding n(2) list_all2_map2 using each by (rule list_all2_mono) simp
  have er: "map entry_risk_level payload = map risk_level rows"
    unfolding n(2,3) using nth by (simp add: list_eq_iff_nth_eq)
  have ei: "map entry_input_product_id payload = ids"
    unfolding n(3) using nth n(1) by (simp add: list_eq_iff_nth_eq)
  have tiers: "\<forall>t\<in>set (map risk_level rows). t \<in> {''Green'', ''Yellow'', ''Red''}"
  proof
    fix t assume "t \<in> set (map risk_level rows)"
    then obtain i where i: "i < length rows" "t = risk_level (rows ! i)"
      by (auto simp: in_set_conv_nth)
    with h have "heuristic_row ix (ids ! i) (rows ! i)"
      by (simp add: list_all2_conv_all_nth)
    from heuristic_row_tier [OF this] i(2) show "t \<in> {''Green'', ''Yellow'', ''Red''}"
      by simp
  qed
  have "fold (\<lambda>r. bump (risk_level (fst r))) new (0, 0, 0) = fold bump (map risk_level rows) (0, 0, 0)"
    unfolding n(2) by (simp add: fold_map comp_def)
  with n(5) fold_bump_high [OF tiers, of 0 0 0]
  have counts: "high = length (filter (\<lambda>r. risk_level r = ''Red'') rows)"
    "med = length (filter (\<lambda>r. risk_level r = ''Yellow'') rows)"
    "low = length (filter (\<lambda>r. risk_level r = ''Green'') rows)"
    by (simp_all add: filter_map comp_def)
  show ?thesis
    using ids h er ei counts db' su by auto
qed


lemma heuristic_row_id:
  assumes "heuristic_row ix pid sr"
  shows "input_product_id sr = pid"
proof (cases "detect_cert_state (product_or_empty ix pid)")
  case (Inl e)
  with assms show ?thesis by (simp add: heuristic_row_def)
next
  case d: (Inr st)
  show ?thesis
  proof (cases "evaluate_product (product_or_empty ix pid)")
    case (Inl e)
    with assms d show ?thesis by (simp add: heuristic_row_def split: prod.splits)
  next
    case (Inr t)
    with assms d show ?thesis by (simp add: heuristic_row_def split: prod.splits)
  qed
qed

lemma heuristic_rows_ids:
  assumes "list_all2 (heuristic_row ix) ids rows"
  shows "map input_product_id rows = ids"
  using assms by (induction rule: list_all2_induct) (simp_all add: heuristic_row_id)

lemma heuristic_row_unknown:
  assumes "heuristic_row ix pid sr" and "unknown_id ix pid"
  shows "input_product_id sr = pid \<and> risk_level sr = ''Red''
         \<and> reasons sr = [''Missing EPD file link'']"
proof -
  have p: "product_or_empty ix pid = []"
    using assms(2) by (simp add: product_or_empty_def unknown_id_def)
  have e: "evaluate_product [] = Inr (''Red'', [''Missing EPD file link''], [MANUAL_NOTE])"
    by (simp add: evaluate_product_def dict_get_def dict_get_default_def py_or_def)
  have d: "detect_cert_state [] = Inr (False, False)"
    by (simp add: detect_cert_state_def)
  from assms(1) show ?thesis
    unfolding heuristic_row_def p e d by (simp add: certificate_tier_def)
qed

lemma create_scan_all_unknown:
  assumes "read_product_ids request = Inr (Inr ids)" and "list_all (unknown_id ix) ids"
  shows "create_scan db ix request =
           Inr (\<lparr> scans = scans db @
                          [\<lparr> scan_id = Suc (length (scans db)), source = ''local_index'',
                             input_count = length ids, high_risk_count = length ids,
                             medium_risk_count = 0, low_risk_count = 0 \<rparr>],
                  scan_results = scan_results db @ map (unknown_row (Suc (length (scans db)))) ids \<rparr>,
                ScanCreated \<lparr> summary_scan_id = Suc (length (scans db)), counts_high = length ids,
                              counts_medium = 0, counts_low = 0, counts_total = length ids \<rparr>
                  (map unknown_entry ids))"
  using assms(1) scan_products_unknown [OF assms(2), of "Suc (length (scans db))" 0 0 0 "[]" "[]"]
  by (simp add: create_scan_def)

lemma read_product_ids_cut:
  assumes "submitted_ids request = Inr (Inr all)" and "0 < length all"
  shows "read_product_ids request = Inr (Inr (take MAX_IDS all))"
  using assms by (cases request) (auto simp: read_product_ids_def MAX_IDS_def)

text \<open>
  C8: a request that submits more than 5000 identifiers is scanned as the request of its
  first 5000: the outcome is the one of the upload of that shorter list, so the entries
  past the 5000th raise no error and leave no trace; when the scan is created, its rows
  and payload entries are those 5000 identifiers, in their order.
\<close>

theorem create_scan_first_5000:
  assumes "submitted_ids request = Inr (Inr all)" and "5000 < length all"
  shows "create_scan db ix request = create_scan db ix (Multipart (Some (Inr (take 5000 all))))
       \<and> (\<forall>db' resp. create_scan db ix request = Inr (db', resp) \<longrightarrow>
            (\<exists>rows summary payload.
               resp = ScanCreated summary payload
             \<and> scan_results db' = scan_results db @ rows
             \<and> map input_product_id rows = take 5000 all
             \<and> length rows = 5000
             \<and> map entry_input_product_id payload = take 5000 all
             \<and> counts_total summary = 5000))"
proof (intro conjI allI impI)
  have "0 < length all" using assms(2) by linarith
  from read_product_ids_cut [OF assms(1) this]
  have r: "read_product_ids request = Inr (Inr (take 5000 all))"
    by (simp add: MAX_IDS_def)
  have r': "read_product_ids (Multipart (Some (Inr (take 5000 all)))) = Inr (Inr (take 5000 all))"
    by (simp add: read_product_ids_def submitted_ids_def MAX_IDS_def)
  show "create_scan db ix request = create_scan db ix (Multipart (Some (Inr (take 5000 all))))"
    by (simp add: create_scan_def r r')
  fix db' resp
  assume ok: "create_scan db ix request = Inr (db', resp)"
  then obtain summary payload where resp: "resp = ScanCreated summary payload"
    using r by (auto simp: create_scan_def Let_def split: sum.splits prod.splits)
  from create_scan_created [OF ok [unfolded resp]] r obtain rows where
    rows: "scan_results db' = scan_results db @ rows"
      "list_all2 (heuristic_row ix) (take 5000 all) rows"
      "map entry_input_product_id payload = take 5000 all"
      "counts_total summary = length (take 5000 all)"
    by auto
  have len: "length rows = 5000"
    using rows(2) assms(2) by (auto dest: list_all2_lengthD)
  have ids: "map input_product_id rows = take 5000 all"
    using rows(2) by (rule heuristic_rows_ids)
  show "\<exists>rows summary payload.
               resp = ScanCreated summary payload
             \<and> scan_results db' = scan_results db @ rows
             \<and> map input_product_id rows = take 5000 all
             \<and> length rows = 5000
             \<and> map entry_input_product_id payload = take 5000 all
             \<and> counts_total summary = 5000"
    using resp rows(1,3,4) len ids assms(2) by auto
qed

theorem create_scan_first_5000_witness:
  "submitted_ids (Multipart (Some (Inr (replicate 5001 ''p1'')))) = Inr (Inr (replicate 5001 ''p1''))
   \<and> 5000 < length (replicate 5001 ''p1'')
   \<and> (\<exists>db' resp.
         create_scan \<lparr> scans = [], scan_results = [] \<rparr> None
           (Multipart (Some (Inr (replicate 5001 ''p1'')))) = Inr (db', resp)
       \<and> map input_product_id (scan_results db') = replicate 5000 ''p1'')"
proof -
  let ?req = "Multipart (Some (Inr (replicate 5001 ''p1'')))"
  let ?db = "\<lparr> scans = [], scan_results = [] \<rparr>"
  have s: "submitted_ids ?req = Inr (Inr (replicate 5001 ''p1''))"
    by (simp add: submitted_ids_def)
  have l: "5000 < length (replicate 5001 ''p1'')" by simp
  have t: "take 5000 (replicate 5001 ''p1'') = replicate 5000 ''p1''" by simp
  have "0 < length (replicate 5001 ''p1'')" by simp
  from read_product_ids_cut [OF s this]
  have r: "read_product_ids ?req = Inr (Inr (replicate 5000 ''p1''))"
    by (simp add: MAX_IDS_def)
  have u: "list_all (unknown_id None) (replicate 5000 ''p1'')"
    by (simp add: list_all_iff unknown_id_def find_product_by_id_def)
  from create_scan_all_unknown [OF r u, of ?db]
  obtain db' resp where ok: "create_scan ?db None ?req = Inr (db', resp)" by blast
  from create_scan_first_5000 [OF s l, of ?db None] ok t
  have "map input_product_id (scan_results db') = replicate 5000 ''p1''" by auto
  with s l ok show ?thesis by blast
qed

text \<open>
  C10: in a created scan, an identifier that matches no product of the catalog has its
  row: the row carries the identifier, the tier Red and the single reason
  "Missing EPD file link", and the high-risk total of the scan counts the Red rows. A
  request of which every identifier is unknown does create its scan.
\<close>

theorem create_scan_unknown_id_row:
  "(\<forall>db' summary payload.
      create_scan db ix request = Inr (db', ScanCreated summary payload) \<longrightarrow>
      (\<exists>ids rows.
         read_product_ids request = Inr (Inr ids)
       \<and> scan_results db' = scan_results db @ rows
       \<and> length rows = length ids
       \<and> (\<forall>i<length ids. unknown_id ix (ids ! i) \<longrightarrow>
             input_product_id (rows ! i) = ids ! i
           \<and> risk_level (rows ! i) = ''Red''
           \<and> reasons (rows ! i) = [''Missing EPD file link''])
       \<and> counts_high summary = length (filter (\<lambda>r. risk_level r = ''Red'') rows)
       \<and> high_risk_count (last (scans db')) = counts_high summary))
   \<and> (\<forall>ids. read_product_ids request = Inr (Inr ids) \<and> list_all (unknown_id ix) ids \<longrightarrow>
        (\<exists>db' summary payload.
           create_scan db ix request = Inr (db', ScanCreated summary payload)
         \<and> scan_results db' = scan_results db @ map (unknown_row (Suc (length (scans db)))) ids
         \<and> counts_high summary = length ids))"
proof (intro conjI allI impI)
  fix db' summary payload
  assume ok: "create_scan db ix request = Inr (db', ScanCreated summary payload)"
  from create_scan_created [OF ok] obtain ids rows where
    c: "read_product_ids request = Inr (Inr ids)"
      "scan_results db' = scan_results db @ rows"
      "list_all2 (heuristic_row ix) ids rows"
      "counts_high summary = length (filter (\<lambda>r. risk_level r = ''Red'') rows)"
      "scans db' = scans db @
              [\<lparr> scan_id = Suc (length (scans db)), source = ''local_index'',
                 input_count = length ids, high_risk_count = counts_high summary,
                 medium_risk_count = counts_medium summary,
                 low_risk_count = counts_low summary \<rparr>]"
    by blast
  have len: "length rows = length ids" using c(3) by (auto dest: list_all2_lengthD)
  have un: "\<forall>i<length ids. unknown_id ix (ids ! i) \<longrightarrow>
             input_product_id (rows ! i) = ids ! i
           \<and> risk_level (rows ! i) = ''Red''
           \<and> reasons (rows ! i) = [''Missing EPD file link'']"
  proof (intro allI impI)
    fix i assume i: "i < length ids" and u: "unknown_id ix (ids ! i)"
    from c(3) i have "heuristic_row ix (ids ! i) (rows ! i)"
      by (simp add: list_all2_conv_all_nth)
    from heuristic_row_unknown [OF this u]
    show "input_product_id (rows ! i) = ids ! i
           \<and> risk_level (rows ! i) = ''Red''
           \<and> reasons (rows ! i) = [''Missing EPD file link'']" .
  qed
  have hl: "high_risk_count (last (scans db')) = counts_high summary"
    unfolding c(5) by simp
  show "\<exists>ids rows.
         read_product_ids request = Inr (Inr ids)
       \<and> scan_results db' = scan_results db @ rows
       \<and> length rows = length ids
       \<and> (\<forall>i<length ids. unknown_id ix (ids ! i) \<longrightarrow>
             input_product_id (rows ! i) = ids ! i
           \<and> risk_level (rows ! i) = ''Red''
           \<and> reasons (rows ! i) = [''Missing EPD file link''])
       \<and> counts_high summary = length (filter (\<lambda>r. risk_level r = ''Red'') rows)
       \<and> high_risk_count (last (scans db')) = counts_high summary"
    using c(1,2,4) len un hl by blast
next
  fix ids
  assume a: "read_product_ids request = Inr (Inr ids) \<and> list_all (unknown_id ix) ids"
  from create_scan_all_unknown [of request ids ix db] a
  show "\<exists>db' summary payload.
           create_scan db ix request = Inr (db', ScanCreated summary payload)
         \<and> scan_results db' = scan_results db @ map (unknown_row (Suc (length (scans db)))) ids
         \<and> counts_high summary = length ids"
    by simp
qed


theorem create_scan_unknown_id_row_witness:
  "\<exists>db' summary payload.
     create_scan \<lparr> scans = [], scan_results = [] \<rparr>
       (Some [[(''id'', PInt 7), (''epd_url'', PStr ''products/x.pdf'')]])
       (JsonBody (PDict [(''product_ids'', PList [PStr ''no-such-id''])]))
       = Inr (db', ScanCreated summary payload)
   \<and> map input_product_id (scan_results db') = [''no-such-id'']
   \<and> map risk_level (scan_results db') = [''Red'']
   \<and> map reasons (scan_results db') = [[''Missing EPD file link'']]
   \<and> counts_high summary = 1"
proof -
  let ?db = "\<lparr> scans = [], scan_results = [] \<rparr>"
  let ?ix = "Some [[(''id'', PInt 7), (''epd_url'', PStr ''products/x.pdf'')]]"
  let ?req = "JsonBody (PDict [(''product_ids'', PList [PStr ''no-such-id''])])"
  have r: "read_product_ids ?req = Inr (Inr [''no-such-id''])"
    by code_simp
  have u: "list_all (unknown_id ?ix) [''no-such-id'']"
    by code_simp
  from create_scan_unknown_id_row [of ?db ?ix ?req] r u
  obtain db' summary payload where
    ok: "create_scan ?db ?ix ?req = Inr (db', ScanCreated summary payload)"
    and rows: "scan_results db' = scan_results ?db @ map (unknown_row (Suc (length (scans ?db)))) [''no-such-id'']"
    and high: "counts_high summary = length [''no-such-id'']"
    by blast
  from rows have
    "map input_product_id (scan_results db') = [''no-such-id'']"
    "map risk_level (scan_results db') = [''Red'']"
    "map reasons (scan_results db') = [[''Missing EPD file link'']]"
    by (simp_all add: unknown_row_def)
  with ok high show ?thesis by auto
qed



end
